theory Spec2Isabelle
  imports Main
begin

section \<open>Strings and character classes\<close>

text \<open>
  A JavaScript string is a sequence of UTF-16 code units; the model takes the strings whose
  code units are below 256, as \<open>string\<close>. The character classes below are the ones the
  three regular expressions of \<^verbatim>\<open>debug-id-upload.ts\<close> use; none of the expressions
  carries a flag, so matching is case-sensitive, \<^verbatim>\<open>^\<close> is the start of the input and
  \<^verbatim>\<open>$\<close> is the end of the input.
\<close>

definition is_digit :: "char \<Rightarrow> bool" where
  "is_digit c = (c \<in> set ''0123456789'')"

definition is_alpha :: "char \<Rightarrow> bool" where
  \<comment> \<open>\<^verbatim>\<open>[a-zA-Z]\<close>\<close>
  "is_alpha c = (c \<in> set ''abcdefghijklmnopqrstuvwxyzABCDEFGHIJKLMNOPQRSTUVWXYZ'')"

definition is_hex :: "char \<Rightarrow> bool" where
  \<comment> \<open>\<^verbatim>\<open>[0-9a-fA-F]\<close>\<close>
  "is_hex c = (c \<in> set ''0123456789abcdefABCDEF'')"

definition is_word_char :: "char \<Rightarrow> bool" where
  \<comment> \<open>\<^verbatim>\<open>\w\<close>, the class that \<^verbatim>\<open>\b\<close> is defined by\<close>
  "is_word_char c = (is_alpha c \<or> is_digit c \<or> c = CHR ''_'')"

definition is_scheme_char :: "char \<Rightarrow> bool" where
  \<comment> \<open>\<^verbatim>\<open>[a-zA-Z0-9+\-.]\<close>\<close>
  "is_scheme_char c = (is_alpha c \<or> is_digit c \<or> c \<in> set ''+-.'')"

definition is_line_terminator :: "char \<Rightarrow> bool" where
  \<comment> \<open>what \<^verbatim>\<open>.\<close> refuses: LF and CR (U+2028 and U+2029 are outside \<open>char\<close>)\<close>
  "is_line_terminator c = (c = CHR 0x0A \<or> c = CHR 0x0D)"

fun strip_prefix :: "string \<Rightarrow> string \<Rightarrow> string option" where
  "strip_prefix [] s = Some s"
| "strip_prefix (p # ps) [] = None"
| "strip_prefix (p # ps) (c # cs) = (if p = c then strip_prefix ps cs else None)"

definition endsWith :: "string \<Rightarrow> string \<Rightarrow> bool" where
  \<comment> \<open>\<^verbatim>\<open>s.endsWith(sfx)\<close>\<close>
  "endsWith s sfx = (length sfx \<le> length s \<and> drop (length s - length sfx) s = sfx)"

section \<open>Identifier extractor\<close>

text \<open>
  \<^verbatim>\<open>determineDebugIdFromBundleSource\<close> (lines 209-219) searches the bundle text for
  \<^verbatim>\<open>/sentry-dbid-([0-9a-fA-F]{8}\b-[0-9a-fA-F]{4}\b-[0-9a-fA-F]{4}\b-[0-9a-fA-F]{4}\b-[0-9a-fA-F]{12})/\<close>
  and returns the first capture group of the leftmost match. The expression has no
  alternative and no unbounded repetition, so at a given start position it matches in at
  most one way and the matcher below follows it token by token.
\<close>

fun hex_run :: "nat \<Rightarrow> string \<Rightarrow> (string \<times> string) option" where
  \<comment> \<open>\<^verbatim>\<open>[0-9a-fA-F]{n}\<close>: the digits consumed and the rest of the input\<close>
  "hex_run 0 s = Some ([], s)"
| "hex_run (Suc n) [] = None"
| "hex_run (Suc n) (c # cs) =
     (if is_hex c
      then (case hex_run n cs of None \<Rightarrow> None | Some (g, r) \<Rightarrow> Some (c # g, r))
      else None)"

definition word_boundary :: "string \<Rightarrow> string \<Rightarrow> bool" where
  \<comment> \<open>\<^verbatim>\<open>\b\<close> between the text consumed so far and the rest: exactly one side is a word character\<close>
  "word_boundary before after =
     ((before \<noteq> [] \<and> is_word_char (last before)) \<noteq> (after \<noteq> [] \<and> is_word_char (hd after)))"

definition hex_group_dash :: "nat \<Rightarrow> string \<Rightarrow> (string \<times> string) option" where
  \<comment> \<open>\<^verbatim>\<open>[0-9a-fA-F]{n}\b-\<close>\<close>
  "hex_group_dash n s =
     (case hex_run n s of
        None \<Rightarrow> None
      | Some (g, r) \<Rightarrow>
          if word_boundary g r
          then (case strip_prefix ''-'' r of None \<Rightarrow> None | Some r' \<Rightarrow> Some (g @ ''-'', r'))
          else None)"

definition match_uuid :: "string \<Rightarrow> string option" where
  \<comment> \<open>the capture group, matched at the head of the input\<close>
  "match_uuid s =
     (case hex_group_dash 8 s of None \<Rightarrow> None | Some (g1, r1) \<Rightarrow>
      case hex_group_dash 4 r1 of None \<Rightarrow> None | Some (g2, r2) \<Rightarrow>
      case hex_group_dash 4 r2 of None \<Rightarrow> None | Some (g3, r3) \<Rightarrow>
      case hex_group_dash 4 r3 of None \<Rightarrow> None | Some (g4, r4) \<Rightarrow>
      case hex_run 12 r4 of None \<Rightarrow> None | Some (g5, r5) \<Rightarrow>
        Some (g1 @ g2 @ g3 @ g4 @ g5))"

definition match_marker_here :: "string \<Rightarrow> string option" where
  \<comment> \<open>the whole expression, matched at the head of the input\<close>
  "match_marker_here s =
     (case strip_prefix ''sentry-dbid-'' s of None \<Rightarrow> None | Some r \<Rightarrow> match_uuid r)"

fun determineDebugIdFromBundleSource :: "string \<Rightarrow> string option" where
  \<comment> \<open>\<^verbatim>\<open>code.match(...)\<close>: start positions are tried from left to right\<close>
  "determineDebugIdFromBundleSource [] = match_marker_here []"
| "determineDebugIdFromBundleSource (c # cs) =
     (case match_marker_here (c # cs) of
        Some u \<Rightarrow> Some u
      | None \<Rightarrow> determineDebugIdFromBundleSource cs)"

text \<open>
  The marker as the specification words it: \<^verbatim>\<open>sentry-dbid-\<close> followed by a uuid, that is
  36 characters in groups of 8, 4, 4, 4 and 12 hexadecimal digits (either case) separated
  by dashes.
\<close>

definition uuid_pattern :: "bool list" where
  \<comment> \<open>\<open>True\<close> where a hexadecimal digit stands, \<open>False\<close> where a dash stands\<close>
  "uuid_pattern =
     replicate 8 True @ [False] @ replicate 4 True @ [False] @ replicate 4 True @ [False]
     @ replicate 4 True @ [False] @ replicate 12 True"

definition uuid_shaped :: "string \<Rightarrow> bool" where
  "uuid_shaped u = list_all2 (\<lambda>h c. if h then is_hex c else c = CHR ''-'') uuid_pattern u"

definition uuid_at :: "string \<Rightarrow> nat \<Rightarrow> string" where
  \<comment> \<open>the 36 characters that follow a 12-character marker prefix starting at position \<open>i\<close>\<close>
  "uuid_at s i = take 36 (drop 12 (drop i s))"

definition marker_at :: "string \<Rightarrow> nat \<Rightarrow> bool" where
  \<comment> \<open>a well-formed marker starts at position \<open>i\<close> of the text\<close>
  "marker_at s i = (take 12 (drop i s) = ''sentry-dbid-'' \<and> uuid_shaped (uuid_at s i))"

definition marker_positions :: "string \<Rightarrow> nat list" where
  "marker_positions s = filter (marker_at s) [0..<length s]"


section \<open>Documents, errors, the file system and the collaborators\<close>

text \<open>
  A parsed JSON text. Numbers are opaque to this code and stand as integers.
\<close>

datatype json =
    JNull
  | JBool bool
  | JNum int
  | JStr string
  | JArr "json list"
  | JObj "(string \<times> json) list"

datatype error =
    FsError string    \<comment> \<open>a rejected file-system call, with the path\<close>
  | TypeError string  \<comment> \<open>thrown by the language itself\<close>
  | External string   \<comment> \<open>thrown by a collaborator: glob, the uploader, telemetry, a hook\<close>

datatype event =
    LogDebug string
  | LogWarn string
  | LogError string
  | UploadSourceMaps string "string list" "string option"
      \<comment> \<open>\<^verbatim>\<open>cliInstance.releases.uploadSourceMaps(release, {include: [{paths, rewrite: false, dist}]})\<close>\<close>
  | CaptureException string
  | Flush
  | HandleRecoverableError error

text \<open>
  A promise that was started and that nothing waits for: what \<^verbatim>\<open>Promise.all\<close> stops
  waiting for once one of its promises has rejected, and the removal that \<^verbatim>\<open>void\<close> starts.
  Such a promise settles at some later time, so what it does is not part of the state the
  code has reached. A directory removal carries the files that were on disk when it was
  started: whatever is written after that moment races with it.
\<close>

datatype promise =
    MapPipeline string nat  \<comment> \<open>the map pipeline of a unit: bundle path and chunk index\<close>
  | Unit string nat         \<comment> \<open>a whole unit: bundle path and chunk index\<close>
  | FileRemoval string      \<comment> \<open>\<^verbatim>\<open>fs.promises.rm\<close> of a file\<close>
  | DirRemoval string "string \<rightharpoonup> string"
      \<comment> \<open>the recursive removal of a directory, and the files on disk at its start\<close>

text \<open>
  The state the code acts on: the files and directories on disk, the paths on which a write
  or a removal is rejected, what the logger and the collaborators were called with (in
  order), and the promises left in flight, in the order in which they were left.
\<close>

record world =
  files :: "string \<rightharpoonup> string"
  dirs :: "string set"
  locked :: "string set"
  events :: "event list"
  in_flight :: "promise list"

datatype pattern = Single string | Many "string list"  \<comment> \<open>\<^verbatim>\<open>string | string[]\<close>\<close>

type_synonym RewriteSourcesHook = "json \<Rightarrow> json \<Rightarrow> error + string"
  \<comment> \<open>\<^verbatim>\<open>(source, map) => string\<close>; it receives the array entry as it is, and may throw\<close>

record options =
  assets :: "pattern option"
  ignore :: "pattern option"
  releaseName :: "string option"
  dist :: "string option"
  rewriteSourcesHook :: "RewriteSourcesHook option"
  handleRecoverableError :: "error \<Rightarrow> error option"  \<comment> \<open>\<open>Some e\<close>: the callback throws \<open>e\<close>\<close>
  deleteFilesAfterUpload :: "pattern option"

text \<open>
  What the code imports and does not define: Node's \<^verbatim>\<open>path\<close>, \<^verbatim>\<open>os\<close> and
  \<^verbatim>\<open>process\<close>, the built-in \<^verbatim>\<open>JSON\<close>, \<^verbatim>\<open>glob\<close>, the upload client and the
  telemetry client. They are parameters of the model.
\<close>

record platform =
  path_normalize :: "string \<Rightarrow> string"
  path_isAbsolute :: "string \<Rightarrow> bool"
  path_join :: "string \<Rightarrow> string \<Rightarrow> string"
  path_dirname :: "string \<Rightarrow> string"
  path_relative :: "string \<Rightarrow> string \<Rightarrow> string"
  process_cwd :: string
  os_tmpdir :: string
  JSON_parse :: "string \<Rightarrow> json option"        \<comment> \<open>\<open>None\<close>: SyntaxError\<close>
  JSON_stringify :: "json \<Rightarrow> string"
  mkdtemp_suffix :: "string option"               \<comment> \<open>the characters the system appends; \<open>None\<close>: rejected\<close>
  glob :: "pattern \<Rightarrow> pattern option \<Rightarrow> world \<Rightarrow> error + string list"
      \<comment> \<open>\<^verbatim>\<open>glob(patterns, {absolute: true, nodir: true, ignore})\<close>\<close>
  uploadSourceMaps :: "string \<Rightarrow> string list \<Rightarrow> string option \<Rightarrow> world \<Rightarrow> error option"
      \<comment> \<open>\<open>Some e\<close>: the upload throws \<open>e\<close>\<close>
  flush :: "error option"                         \<comment> \<open>\<open>Some e\<close>: \<^verbatim>\<open>sentryClient.flush()\<close> rejects\<close>

text \<open>The texts the code logs and reports.\<close>

definition msg_no_assets :: string where
  "msg_no_assets = ''No `sourcemaps.assets` option provided, falling back to uploading detected build artifacts.''"

definition msg_empty_assets :: string where
  "msg_empty_assets = ''Empty `sourcemaps.assets` option provided. Will not upload sourcemaps with debug ID.''"

definition msg_no_matches :: string where
  "msg_no_matches = ''Didn't find any matching sources for debug ID upload. Please check the `sourcemaps.assets` option.''"

definition msg_deleting :: "string \<Rightarrow> string" where
  "msg_deleting p = ''Deleting asset after upload: '' @ p"

definition msg_capture :: string where
  "msg_capture = ''Error in \"debugIdUploadPlugin\" writeBundle hook''"

definition msg_bundle_unreadable :: "string \<Rightarrow> string" where
  "msg_bundle_unreadable p = ''Could not read bundle to determine debug ID and source map: '' @ p"

definition msg_no_debug_id :: "string \<Rightarrow> string" where
  "msg_no_debug_id p = ''Could not determine debug ID from bundle. This can happen if you did not clean your output folder before installing the Sentry plugin. File will not be source mapped: '' @ p"

definition msg_no_source_map :: "string \<Rightarrow> string" where
  "msg_no_source_map p = ''Could not determine source map path for bundle: '' @ p
     @ '' - Did you turn on source map generation in your bundler?''"

definition msg_map_unreadable :: "string \<Rightarrow> string" where
  "msg_map_unreadable p = ''Failed to read source map for debug ID upload: '' @ p"

definition msg_map_unparsable :: "string \<Rightarrow> string" where
  "msg_map_unparsable p = ''Failed to parse source map for debug ID upload: '' @ p"

definition msg_map_unwritable :: "string \<Rightarrow> string" where
  "msg_map_unwritable p = ''Failed to prepare source map for debug ID upload: '' @ p"

definition log :: "event \<Rightarrow> world \<Rightarrow> world" where
  "log e w = w\<lparr>events := events w @ [e]\<rparr>"

definition leave :: "promise \<Rightarrow> world \<Rightarrow> world" where
  \<comment> \<open>go on without waiting for the promise\<close>
  "leave p w = w\<lparr>in_flight := in_flight w @ [p]\<rparr>"



definition readFile :: "world \<Rightarrow> string \<Rightarrow> error + string" where
  "readFile w p = (case files w p of None \<Rightarrow> Inl (FsError p) | Some c \<Rightarrow> Inr c)"

definition writeFile :: "string \<Rightarrow> string \<Rightarrow> world \<Rightarrow> error + world" where
  "writeFile p c w =
     (if p \<in> locked w then Inl (FsError p) else Inr (w\<lparr>files := (files w)(p \<mapsto> c)\<rparr>))"

definition access :: "world \<Rightarrow> string \<Rightarrow> bool" where
  \<comment> \<open>\<^verbatim>\<open>fs.access(p)\<close> resolves\<close>
  "access w p = (case files w p of Some c \<Rightarrow> True | None \<Rightarrow> p \<in> dirs w)"

definition rm_force :: "string \<Rightarrow> world \<Rightarrow> error + world" where
  \<comment> \<open>\<^verbatim>\<open>fs.promises.rm(p, {force: true})\<close>: a missing file is not an error\<close>
  "rm_force p w =
     (if files w p \<noteq> None \<and> p \<in> locked w then Inl (FsError p)
      else Inr (w\<lparr>files := (files w)(p := None)\<rparr>))"

definition mkdtemp :: "platform \<Rightarrow> string \<Rightarrow> world \<Rightarrow> error + (string \<times> world)" where
  "mkdtemp P prefix w =
     (case mkdtemp_suffix P of
        None \<Rightarrow> Inl (FsError prefix)
      | Some sfx \<Rightarrow> Inr (prefix @ sfx, w\<lparr>dirs := insert (prefix @ sfx) (dirs w)\<rparr>))"

definition truthy :: "pattern option \<Rightarrow> pattern option" where
  \<comment> \<open>\<^verbatim>\<open>if (x)\<close> for \<^verbatim>\<open>x: string | string[] | undefined\<close>: \<open>Some\<close> the value when it is truthy;
      the empty string is falsy and every array is truthy, also the empty one\<close>
  "truthy x =
     (case x of
        None \<Rightarrow> None
      | Some (Single s) \<Rightarrow> if s \<noteq> [] then Some (Single s) else None
      | Some (Many ps) \<Rightarrow> Some (Many ps))"

definition digit_char :: "nat \<Rightarrow> char" where
  \<comment> \<open>the ASCII digit of \<open>d < 10\<close>\<close>
  "digit_char d = char_of (48 + d)"

fun show_nat :: "nat \<Rightarrow> string" where
  \<comment> \<open>an array index in a template literal: its decimal digits (an index is far below the
      size at which a number prints with an exponent)\<close>
  "show_nat n = (if n < 10 then [digit_char n] else show_nat (n div 10) @ [digit_char (n mod 10)])"

declare show_nat.simps [simp del]

section \<open>Default rewrite hook\<close>

text \<open>
  \<^verbatim>\<open>PROTOCOL_REGEX = /^[a-zA-Z][a-zA-Z0-9+\-.]*:\/\//\<close> (line 303). Neither \<^verbatim>\<open>:\<close> nor
  \<^verbatim>\<open>/\<close> is in the repeated class, so the greedy repetition never has to give characters
  back. The function returns what follows the match.
\<close>

definition match_protocol :: "string \<Rightarrow> string option" where
  "match_protocol s =
     (case s of
        [] \<Rightarrow> None
      | c # cs \<Rightarrow> if is_alpha c then strip_prefix ''://'' (dropWhile is_scheme_char cs) else None)"

definition defaultRewriteSourcesHook :: "platform \<Rightarrow> string \<Rightarrow> string" where
  \<comment> \<open>lines 304-310; \<^verbatim>\<open>source.replace(PROTOCOL_REGEX, "")\<close> removes the match at the start\<close>
  "defaultRewriteSourcesHook P source =
     (case match_protocol source of
        Some rest \<Rightarrow> rest
      | None \<Rightarrow> path_relative P (process_cwd P) (path_normalize P source))"

definition default_hook :: "platform \<Rightarrow> RewriteSourcesHook" where
  \<comment> \<open>the default as a hook: \<^verbatim>\<open>source.match\<close> throws on an entry that is not a string\<close>
  "default_hook P src doc =
     (case src of
        JStr s \<Rightarrow> Inr (defaultRewriteSourcesHook P s)
      | _ \<Rightarrow> Inl (TypeError ''source.match is not a function''))"

text \<open>The scheme prefix as the specification words it.\<close>

definition uri_scheme :: "string \<Rightarrow> bool" where
  "uri_scheme sch = (sch \<noteq> [] \<and> is_alpha (hd sch) \<and> list_all is_scheme_char (tl sch))"

definition has_scheme_prefix :: "string \<Rightarrow> bool" where
  \<comment> \<open>the string starts with a scheme followed by \<^verbatim>\<open>://\<close>\<close>
  "has_scheme_prefix s =
     list_ex (\<lambda>n. uri_scheme (take n s) \<and> take 3 (drop n s) = ''://'') [0..<length s]"


section \<open>Source-map locator\<close>

text \<open>
  \<^verbatim>\<open>bundleSource.match(/^\/\/# sourceMappingURL=(.*)$/)\<close> (line 232). Without the
  \<^verbatim>\<open>m\<close> flag \<^verbatim>\<open>^\<close> and \<^verbatim>\<open>$\<close> are the two ends of the whole text, and \<^verbatim>\<open>.\<close> stops at a
  line terminator: the greedy group takes the longest run free of line terminators, and
  the match succeeds when that run reaches the end of the text.
\<close>

definition match_sourceMappingURL :: "string \<Rightarrow> string option" where
  "match_sourceMappingURL s =
     (case strip_prefix ''//# sourceMappingURL='' s of
        None \<Rightarrow> None
      | Some v \<Rightarrow>
          if dropWhile (\<lambda>c. \<not> is_line_terminator c) v = []
          then Some (takeWhile (\<lambda>c. \<not> is_line_terminator c) v)
          else None)"

definition determineSourceMapPathFromBundle ::
  "platform \<Rightarrow> string \<Rightarrow> string \<Rightarrow> world \<Rightarrow> string option \<times> world" where
  \<comment> \<open>lines 226-256; \<open>None\<close> is \<^verbatim>\<open>undefined\<close>\<close>
  "determineSourceMapPathFromBundle P bundlePath bundleSource w =
     (case match_sourceMappingURL bundleSource of
        Some url \<Rightarrow>
          (let sourceMappingUrl = path_normalize P url
           in if path_isAbsolute P sourceMappingUrl
              then (Some sourceMappingUrl, w)
              else (Some (path_join P (path_dirname P bundlePath) sourceMappingUrl), w))
      | None \<Rightarrow>
          (let adjacentSourceMapFilePath = bundlePath @ ''.map''
           in if access w adjacentSourceMapFilePath
              then (Some adjacentSourceMapFilePath, w)
              else (None,
                    log (LogDebug (msg_no_source_map bundlePath)) w)))"

section \<open>Source-map transformer\<close>

fun set_field :: "string \<Rightarrow> json \<Rightarrow> (string \<times> json) list \<Rightarrow> (string \<times> json) list" where
  \<comment> \<open>an existing key keeps its place, a new key goes last\<close>
  "set_field k v [] = [(k, v)]"
| "set_field k v ((k', v') # kvs) =
     (if k' = k then (k, v) # kvs else (k', v') # set_field k v kvs)"

fun set_property :: "json \<Rightarrow> string \<Rightarrow> json \<Rightarrow> json option" where
  \<comment> \<open>\<^verbatim>\<open>map[k] = v\<close> in module (strict) code; \<open>None\<close>: TypeError\<close>
  "set_property (JObj kvs) k v = Some (JObj (set_field k v kvs))"
| "set_property (JArr xs) k v = Some (JArr xs)"
    \<comment> \<open>a named property of an array object, which \<^verbatim>\<open>JSON.stringify\<close> leaves out\<close>
| "set_property JNull k v = None"
| "set_property (JBool b) k v = None"
| "set_property (JNum n) k v = None"
| "set_property (JStr s) k v = None"

fun get_property :: "json \<Rightarrow> string \<Rightarrow> json option" where
  \<comment> \<open>\<^verbatim>\<open>map[k]\<close> for a key that is no array index; \<open>None\<close> is \<^verbatim>\<open>undefined\<close>\<close>
  "get_property (JObj kvs) k = map_of kvs k"
| "get_property (JArr xs) k = None"
| "get_property JNull k = None"
| "get_property (JBool b) k = None"
| "get_property (JNum n) k = None"
| "get_property (JStr s) k = None"

definition parse_and_inject :: "platform \<Rightarrow> string \<Rightarrow> string \<Rightarrow> json option" where
  \<comment> \<open>the body of the second \<^verbatim>\<open>try\<close> (lines 280-283); \<open>None\<close>: it threw\<close>
  "parse_and_inject P sourceMapFileContent debugId =
     (case JSON_parse P sourceMapFileContent of
        None \<Rightarrow> None
      | Some m0 \<Rightarrow>
          (case set_property m0 ''debug_id'' (JStr debugId) of
             None \<Rightarrow> None
           | Some m1 \<Rightarrow> set_property m1 ''debugId'' (JStr debugId)))"

fun map_hook :: "RewriteSourcesHook \<Rightarrow> json \<Rightarrow> json list \<Rightarrow> error + string list" where
  \<comment> \<open>\<^verbatim>\<open>sources.map((source) => rewriteSourcesHook(source, map))\<close>: the new array, or the first throw\<close>
  "map_hook hook doc [] = Inr []"
| "map_hook hook doc (source # sources) =
     (case hook source doc of
        Inl e \<Rightarrow> Inl e
      | Inr s \<Rightarrow> (case map_hook hook doc sources of Inl e \<Rightarrow> Inl e | Inr ss \<Rightarrow> Inr (s # ss)))"

definition sources_of :: "json \<Rightarrow> json list" where
  \<comment> \<open>the entries of the \<^verbatim>\<open>sources\<close> array of a document, none when it has no such array\<close>
  "sources_of doc = (case get_property doc ''sources'' of Some (JArr sources) \<Rightarrow> sources | _ \<Rightarrow> [])"

definition rewrite_sources :: "RewriteSourcesHook \<Rightarrow> json \<Rightarrow> error + json" where
  \<comment> \<open>lines 289-291: the array that \<^verbatim>\<open>.map\<close> returns is not assigned to anything\<close>
  "rewrite_sources hook doc =
     (case get_property doc ''sources'' of
        Some (JArr sources) \<Rightarrow>
          (case map_hook hook doc sources of Inl e \<Rightarrow> Inl e | Inr rewritten \<Rightarrow> Inr doc)
      | _ \<Rightarrow> Inr doc)"

definition prepareSourceMapForDebugIdUpload ::
  "platform \<Rightarrow> string \<Rightarrow> string \<Rightarrow> string \<Rightarrow> RewriteSourcesHook \<Rightarrow> world \<Rightarrow> error option \<times> world"
  where
  \<comment> \<open>lines 261-301; the first component is \<open>Some e\<close> when the returned promise rejects with \<open>e\<close>\<close>
  "prepareSourceMapForDebugIdUpload P sourceMapPath targetPath debugId hook w =
     (case readFile w sourceMapPath of
        Inl e \<Rightarrow>
          (None, log (LogError (msg_map_unreadable sourceMapPath)) w)
      | Inr sourceMapFileContent \<Rightarrow>
          (case parse_and_inject P sourceMapFileContent debugId of
             None \<Rightarrow>
               (None, log (LogError (msg_map_unparsable sourceMapPath)) w)
           | Some doc \<Rightarrow>
               (case rewrite_sources hook doc of
                  Inl e \<Rightarrow> (Some e, w)
                | Inr doc' \<Rightarrow>
                    (case writeFile targetPath (JSON_stringify P doc') w of
                       Inl e \<Rightarrow>
                         (None, log (LogError (msg_map_unwritable sourceMapPath)) w)
                     | Inr w' \<Rightarrow> (None, w')))))"

section \<open>Bundle preparer\<close>

definition uniqueUploadName :: "string \<Rightarrow> nat \<Rightarrow> string" where
  \<comment> \<open>line 175\<close>
  "uniqueUploadName debugId chunkIndex = debugId @ ''-'' @ show_nat chunkIndex"

definition stamp :: "string \<Rightarrow> string \<Rightarrow> string" where
  \<comment> \<open>line 177\<close>
  "stamp bundleContent debugId = bundleContent @ [CHR 0x0A] @ ''//# debugId='' @ debugId"

text \<open>
  One unit (lines 149-201). The write of the bundle text is started first, the map pipeline
  after it, and \<^verbatim>\<open>Promise.all\<close> (line 200) waits for both, until one of them rejects. The
  model fixes the schedule in which the write settles first: when it rejects, the unit
  rejects at once and the map pipeline is left in flight; when it is fulfilled, the unit
  settles as the map pipeline does.
\<close>

definition prepareBundleForDebugIdUpload ::
  "platform \<Rightarrow> string \<Rightarrow> string \<Rightarrow> nat \<Rightarrow> RewriteSourcesHook \<Rightarrow> world \<Rightarrow> error option \<times> world"
  where
  "prepareBundleForDebugIdUpload P bundleFilePath uploadFolder chunkIndex hook w =
     (case readFile w bundleFilePath of
        Inl e \<Rightarrow>
          (None, log (LogError (msg_bundle_unreadable bundleFilePath)) w)
      | Inr bundleContent0 \<Rightarrow>
          (case determineDebugIdFromBundleSource bundleContent0 of
             None \<Rightarrow>
               (None, log (LogDebug (msg_no_debug_id bundleFilePath)) w)
           | Some debugId \<Rightarrow>
               (let bundleContent = stamp bundleContent0 debugId
                in case writeFile (path_join P uploadFolder (uniqueUploadName debugId chunkIndex @ ''.js''))
                          bundleContent w of
                     Inl e \<Rightarrow> (Some e, leave (MapPipeline bundleFilePath chunkIndex) w)
                   | Inr w1 \<Rightarrow>
                       (let (sourceMapPath, w2) =
                              determineSourceMapPathFromBundle P bundleFilePath bundleContent w1
                        in case sourceMapPath of
                             None \<Rightarrow> (None, w2)
                           | Some p \<Rightarrow>
                               if p \<noteq> []
                               then prepareSourceMapForDebugIdUpload P p
                                      (path_join P uploadFolder
                                         (uniqueUploadName debugId chunkIndex @ ''.js.map''))
                                      debugId hook w2
                               else (None, w2)))))"

section \<open>Batch orchestrator\<close>

text \<open>
  \<^verbatim>\<open>Promise.all(debugIdChunkFilePaths.map(async (chunkFilePath, chunkIndex) => ...))\<close>
  (lines 94-104). Every unit is started; the model settles them in index order. When a unit
  rejects, \<^verbatim>\<open>Promise.all\<close> rejects at once and the units that have not settled are left in
  flight.
\<close>

fun prepare_all ::
  "platform \<Rightarrow> string \<Rightarrow> RewriteSourcesHook \<Rightarrow> (nat \<times> string) list \<Rightarrow> world \<Rightarrow> error option \<times> world"
  where
  "prepare_all P folder hook [] w = (None, w)"
| "prepare_all P folder hook ((chunkIndex, chunkFilePath) # rest) w =
     (case prepareBundleForDebugIdUpload P chunkFilePath folder chunkIndex hook w of
        (Some e, w1) \<Rightarrow> (Some e, foldl (\<lambda>w' (i, p). leave (Unit p i) w') w1 rest)
      | (None, w1) \<Rightarrow> prepare_all P folder hook rest w1)"

definition is_script :: "string \<Rightarrow> bool" where
  \<comment> \<open>the filter of lines 78-83\<close>
  "is_script p = (endsWith p ''.js'' \<or> endsWith p ''.mjs'' \<or> endsWith p ''.cjs'')"

definition discover_prepare_upload ::
  "options \<Rightarrow> platform \<Rightarrow> string \<Rightarrow> string list \<Rightarrow> world \<Rightarrow> error option \<times> world" where
  \<comment> \<open>lines 62-119 of the \<^verbatim>\<open>try\<close> block\<close>
  "discover_prepare_upload opts P tmpUploadFolder buildArtifactPaths w =
     (let (globAssets, w1) =
            (case truthy (assets opts) of
               Some a \<Rightarrow> (a, w)
             | None \<Rightarrow>
                 (Many buildArtifactPaths,
                  log (LogDebug msg_no_assets) w))
      in case glob P globAssets (ignore opts) w1 of
           Inl e \<Rightarrow> (Some e, w1)
         | Inr found \<Rightarrow>
             (let debugIdChunkFilePaths = filter is_script found
              in if assets opts = Some (Many [])
                 then (None, log (LogDebug msg_empty_assets) w1)
                 else if debugIdChunkFilePaths = []
                 then (None, log (LogWarn msg_no_matches) w1)
                 else
                   (case prepare_all P tmpUploadFolder
                           (case rewriteSourcesHook opts of Some h \<Rightarrow> h | None \<Rightarrow> default_hook P)
                           (enumerate 0 debugIdChunkFilePaths) w1 of
                      (Some e, w2) \<Rightarrow> (Some e, w2)
                    | (None, w2) \<Rightarrow>
                        (let release = (case releaseName opts of Some r \<Rightarrow> r | None \<Rightarrow> ''undefined'');
                             w3 = log (UploadSourceMaps release [tmpUploadFolder] (dist opts)) w2
                         in (uploadSourceMaps P release [tmpUploadFolder] (dist opts) w2, w3)))))"

fun rm_all :: "string list \<Rightarrow> world \<Rightarrow> error option \<times> world" where
  \<comment> \<open>\<^verbatim>\<open>Promise.all(paths.map((p) => fs.promises.rm(p, {force: true})))\<close>, settled in list order;
      after a rejection the removals that have not settled are left in flight\<close>
  "rm_all [] w = (None, w)"
| "rm_all (p # ps) w =
     (case rm_force p w of
        Inl e \<Rightarrow> (Some e, foldl (\<lambda>w' q. leave (FileRemoval q) w') w ps)
      | Inr w1 \<Rightarrow> rm_all ps w1)"

definition delete_files_after_upload :: "options \<Rightarrow> platform \<Rightarrow> world \<Rightarrow> error option \<times> world" where
  \<comment> \<open>lines 121-136 of the \<^verbatim>\<open>try\<close> block\<close>
  "delete_files_after_upload opts P w =
     (case truthy (deleteFilesAfterUpload opts) of
        None \<Rightarrow> (None, w)
      | Some pats \<Rightarrow>
          (case glob P pats None w of
             Inl e \<Rightarrow> (Some e, w)
           | Inr filePathsToDelete \<Rightarrow>
               rm_all filePathsToDelete
                 (foldl (\<lambda>w' p. log (LogDebug (msg_deleting p)) w') w
                    filePathsToDelete)))"

definition try_block ::
  "options \<Rightarrow> platform \<Rightarrow> string \<Rightarrow> string list \<Rightarrow> world \<Rightarrow> error option \<times> world" where
  \<comment> \<open>lines 62-136: what follows the creation of the staging directory inside \<^verbatim>\<open>try\<close>\<close>
  "try_block opts P tmpUploadFolder buildArtifactPaths w =
     (case discover_prepare_upload opts P tmpUploadFolder buildArtifactPaths w of
        (Some e, w1) \<Rightarrow> (Some e, w1)
      | (None, w1) \<Rightarrow> delete_files_after_upload opts P w1)"

definition catch_block :: "options \<Rightarrow> platform \<Rightarrow> error \<Rightarrow> world \<Rightarrow> error option \<times> world" where
  \<comment> \<open>lines 137-140\<close>
  "catch_block opts P e w =
     (let w1 = log (CaptureException msg_capture) w;
          w2 = log Flush w1
      in case flush P of
           Some e' \<Rightarrow> (Some e', w2)
         | None \<Rightarrow> (handleRecoverableError opts e, log (HandleRecoverableError e) w2))"

definition finally_block :: "string option \<Rightarrow> world \<Rightarrow> world" where
  \<comment> \<open>lines 141-145: \<^verbatim>\<open>void fs.promises.rm(folderToCleanUp, ...)\<close> starts the removal and goes on\<close>
  "finally_block folderToCleanUp w =
     (case folderToCleanUp of
        None \<Rightarrow> w
      | Some folder \<Rightarrow> if folder \<noteq> [] then leave (DirRemoval folder (files w)) w else w)"

text \<open>
  The function that \<^verbatim>\<open>createDebugIdUploadFunction\<close> returns (lines 50-146). The upload
  client is constructed before the \<^verbatim>\<open>try\<close> (line 53); the constructor is taken to return.
\<close>

definition createDebugIdUploadFunction ::
  "options \<Rightarrow> platform \<Rightarrow> string list \<Rightarrow> world \<Rightarrow> error option \<times> world" where
  \<comment> \<open>lines 50-146: the state when the returned promise settles, and \<open>Some e\<close> when it rejects\<close>
  "createDebugIdUploadFunction opts P buildArtifactPaths w =
     (case mkdtemp P (path_join P (os_tmpdir P) ''sentry-bundler-plugin-upload-'') w of
        Inl e \<Rightarrow>
          (let (r, w1) = catch_block opts P e w in (r, finally_block None w1))
      | Inr (tmpUploadFolder, w0) \<Rightarrow>
          (case try_block opts P tmpUploadFolder buildArtifactPaths w0 of
             (None, w1) \<Rightarrow> (None, finally_block (Some tmpUploadFolder) w1)
           | (Some e, w1) \<Rightarrow>
               (let (r, w2) = catch_block opts P e w1
                in (r, finally_block (Some tmpUploadFolder) w2))))"


section \<open>A POSIX platform for the examples\<close>

text \<open>
  The concrete inputs below run on this platform: Node's documented POSIX behaviour of
  \<^verbatim>\<open>path\<close>, computed on path segments, a \<^verbatim>\<open>glob\<close> for patterns without wildcards, a
  serialiser for documents whose strings need no escape beyond the quote and the
  backslash, and a parser that knows the documents of the examples.
\<close>

fun split_slash :: "string \<Rightarrow> string list" where
  "split_slash [] = [[]]"
| "split_slash (c # cs) =
     (if c = CHR ''/'' then [] # split_slash cs
      else (case split_slash cs of [] \<Rightarrow> [[c]] | seg # segs \<Rightarrow> (c # seg) # segs))"

fun join_with :: "string \<Rightarrow> string list \<Rightarrow> string" where
  "join_with sep [] = []"
| "join_with sep [x] = x"
| "join_with sep (x # y # ys) = x @ sep @ join_with sep (y # ys)"

fun normalize_segments :: "bool \<Rightarrow> string list \<Rightarrow> string list \<Rightarrow> string list" where
  \<comment> \<open>empty and \<^verbatim>\<open>.\<close> segments go, \<^verbatim>\<open>..\<close> removes the segment before it, or stays when the
      path is relative and nothing is left to remove\<close>
  "normalize_segments allowAboveRoot kept [] = kept"
| "normalize_segments allowAboveRoot kept (seg # segs) =
     (if seg = [] \<or> seg = ''.'' then normalize_segments allowAboveRoot kept segs
      else if seg = ''..'' then
        (if kept \<noteq> [] \<and> last kept \<noteq> ''..'' then normalize_segments allowAboveRoot (butlast kept) segs
         else if allowAboveRoot then normalize_segments allowAboveRoot (kept @ [''..'']) segs
         else normalize_segments allowAboveRoot kept segs)
      else normalize_segments allowAboveRoot (kept @ [seg]) segs)"

definition posix_isAbsolute :: "string \<Rightarrow> bool" where
  "posix_isAbsolute p = (p \<noteq> [] \<and> hd p = CHR ''/'')"

definition posix_normalize :: "string \<Rightarrow> string" where
  "posix_normalize p =
     (if p = [] then ''.''
      else
        (let isAbsolute = (hd p = CHR ''/'');
             trailingSeparator = (last p = CHR ''/'');
             res = join_with ''/'' (normalize_segments (\<not> isAbsolute) [] (split_slash p))
         in if res = [] then (if isAbsolute then ''/'' else if trailingSeparator then ''./'' else ''.'')
            else (if isAbsolute then ''/'' else []) @ res @ (if trailingSeparator then ''/'' else [])))"

definition posix_join :: "string \<Rightarrow> string \<Rightarrow> string" where
  "posix_join a b =
     (let parts = filter (\<lambda>x. x \<noteq> []) [a, b]
      in if parts = [] then ''.'' else posix_normalize (join_with ''/'' parts))"

definition posix_dirname :: "string \<Rightarrow> string" where
  "posix_dirname p =
     (if p = [] then ''.''
      else
        (let hasRoot = (hd p = CHR ''/'');
             t = rev (dropWhile (\<lambda>c. c = CHR ''/'') (rev (tl p)))
         in if CHR ''/'' \<notin> set t then (if hasRoot then ''/'' else ''.'')
            else
              (let keep = rev (tl (dropWhile (\<lambda>c. c \<noteq> CHR ''/'') (rev t)))
               in if hasRoot \<and> keep = [] then ''//'' else hd p # keep)))"

definition posix_resolve :: "string \<Rightarrow> string \<Rightarrow> string list" where
  \<comment> \<open>the segments of \<^verbatim>\<open>path.resolve(p)\<close>\<close>
  "posix_resolve cwd p =
     normalize_segments False [] (split_slash (if posix_isAbsolute p then p else cwd @ ''/'' @ p))"

fun drop_common :: "string list \<Rightarrow> string list \<Rightarrow> string list \<times> string list" where
  "drop_common (x # xs) (y # ys) = (if x = y then drop_common xs ys else (x # xs, y # ys))"
| "drop_common xs ys = (xs, ys)"

definition posix_relative :: "string \<Rightarrow> string \<Rightarrow> string \<Rightarrow> string" where
  "posix_relative cwd from to =
     (if from = to then []
      else
        (let (f, t) = drop_common (posix_resolve cwd from) (posix_resolve cwd to)
         in join_with ''/'' (replicate (length f) ''..'' @ t)))"

definition quote :: "string \<Rightarrow> string" where
  "quote s =
     [CHR 0x22]
     @ concat (map (\<lambda>c. if c = CHR 0x22 \<or> c = CHR 0x5C then [CHR 0x5C, c] else [c]) s)
     @ [CHR 0x22]"

fun stringify :: "json \<Rightarrow> string" where
  "stringify JNull = ''null''"
| "stringify (JBool b) = (if b then ''true'' else ''false'')"
| "stringify (JNum n) = (if n < 0 then ''-'' else []) @ show_nat (nat \<bar>n\<bar>)"
| "stringify (JStr s) = quote s"
| "stringify (JArr xs) = ''['' @ join_with '','' (map stringify xs) @ '']''"
| "stringify (JObj kvs) =
     ''{'' @ join_with '','' (map (\<lambda>kv. quote (fst kv) @ '':'' @ stringify (snd kv)) kvs) @ ''}''"

definition example_map :: json where
  "example_map =
     JObj [(''version'', JNum 3),
           (''sources'', JArr [JStr ''https://cdn.example.com/app.js'', JStr ''/home/ci/project/src/util.ts'']),
           (''mappings'', JStr ''AAAA'')]"

definition parse_known :: "json list \<Rightarrow> string \<Rightarrow> json option" where
  \<comment> \<open>the document among \<open>docs\<close> that the text serialises, if any\<close>
  "parse_known docs s = find (\<lambda>d. stringify d = s) docs"

definition literal_glob :: "pattern \<Rightarrow> pattern option \<Rightarrow> world \<Rightarrow> error + string list" where
  \<comment> \<open>patterns without wildcards: the listed paths that are files and are not ignored\<close>
  "literal_glob pats ign w =
     (let listed = (case pats of Single s \<Rightarrow> [s] | Many ps \<Rightarrow> ps);
          ignored = (case ign of None \<Rightarrow> [] | Some (Single s) \<Rightarrow> [s] | Some (Many ps) \<Rightarrow> ps)
      in Inr (filter (\<lambda>p. files w p \<noteq> None \<and> p \<notin> set ignored) (remdups listed)))"

definition node_posix :: platform where
  "node_posix =
     \<lparr> path_normalize = posix_normalize,
       path_isAbsolute = posix_isAbsolute,
       path_join = posix_join,
       path_dirname = posix_dirname,
       path_relative = posix_relative ''/home/ci/project'',
       process_cwd = ''/home/ci/project'',
       os_tmpdir = ''/tmp'',
       JSON_parse = parse_known [example_map, JArr [], JNum 7],
       JSON_stringify = stringify,
       mkdtemp_suffix = Some ''Ab3xYz'',
       glob = literal_glob,
       uploadSourceMaps = (\<lambda>release paths dist w. None),
       flush = None \<rparr>"

definition example_id :: string where
  "example_id = ''0123abCD-0123-4567-89ab-0123456789AB''"

definition example_bundle :: string where
  \<comment> \<open>a bundle with one marker and a trailing \<^verbatim>\<open>sourceMappingURL\<close> comment on its own line\<close>
  "example_bundle =
     ''console.log(1);var _id=\"sentry-dbid-0123abCD-0123-4567-89ab-0123456789AB\";''
     @ [CHR 0x0A] @ ''//# sourceMappingURL=/maps/app.js.map''"

definition example_map_text :: string where
  "example_map_text =
     ''{\"version\":3,\"sources\":[\"https://cdn.example.com/app.js\",\"/home/ci/project/src/util.ts\"],\"mappings\":\"AAAA\"}''"

definition example_world :: world where
  \<comment> \<open>the bundle, the map its comment names and a map beside the bundle\<close>
  "example_world =
     \<lparr> files = [''/dist/app.js'' \<mapsto> example_bundle,
                ''/maps/app.js.map'' \<mapsto> example_map_text,
                ''/dist/app.js.map'' \<mapsto> example_map_text],
       dirs = {''/dist'', ''/maps'', ''/tmp''},
       locked = {},
       events = [],
       in_flight = [] \<rparr>"

definition example_options :: options where
  \<comment> \<open>only \<^verbatim>\<open>assets\<close> is set, to the bundle of the example\<close>
  "example_options =
     \<lparr> assets = Some (Single ''/dist/app.js''),
       ignore = None,
       releaseName = None,
       dist = None,
       rewriteSourcesHook = None,
       handleRecoverableError = (\<lambda>e. None),
       deleteFilesAfterUpload = None \<rparr>"

definition example_folder :: string where
  \<comment> \<open>the staging directory \<^verbatim>\<open>mkdtemp\<close> creates on the example platform\<close>
  "example_folder = ''/tmp/sentry-bundler-plugin-upload-Ab3xYz''"

definition example_staged_js :: string where
  \<comment> \<open>where the bundle of the example is staged as chunk 0\<close>
  "example_staged_js =
     ''/tmp/sentry-bundler-plugin-upload-Ab3xYz/0123abCD-0123-4567-89ab-0123456789AB-0.js''"

definition example_staged_map :: string where
  "example_staged_map =
     ''/tmp/sentry-bundler-plugin-upload-Ab3xYz/0123abCD-0123-4567-89ab-0123456789AB-0.js.map''"

section \<open>The identifier extractor finds the leftmost well-formed marker\<close>

lemma strip_prefix_Some_iff: "strip_prefix p s = Some r \<longleftrightarrow> s = p @ r"
  by (induction p s rule: strip_prefix.induct) auto

lemma strip_prefix_append [simp]: "strip_prefix p (p @ r) = Some r"
  by (simp add: strip_prefix_Some_iff)

lemma hex_run_Some_iff:
  "hex_run n s = Some (g, r) \<longleftrightarrow> s = g @ r \<and> length g = n \<and> list_all is_hex g"
proof (induction n s arbitrary: g r rule: hex_run.induct)
  case (1 s)
  then show ?case by auto
next
  case (2 n)
  then show ?case by auto
next
  case (3 n c cs)
  show ?case
  proof (cases "is_hex c")
    case True
    with 3 show ?thesis
      by (cases g) (auto split: option.splits)
  next
    case False
    then show ?thesis by (cases g) auto
  qed
qed

lemma is_hex_word_char: "is_hex c \<Longrightarrow> is_word_char c"
  by (auto simp: is_hex_def is_word_char_def is_alpha_def is_digit_def)

lemma dash_not_word_char: "\<not> is_word_char (CHR ''-'')"
  by (simp add: is_word_char_def is_alpha_def is_digit_def)

lemma word_boundary_hex_dash:
  "g \<noteq> [] \<Longrightarrow> list_all is_hex g \<Longrightarrow> word_boundary g (CHR ''-'' # r)"
proof -
  assume "g \<noteq> []" "list_all is_hex g"
  then have "is_hex (last g)" by (simp add: list_all_iff)
  then show ?thesis
    using \<open>g \<noteq> []\<close> by (simp add: word_boundary_def is_hex_word_char dash_not_word_char)
qed

lemma hex_group_dash_Some_iff:
  assumes "0 < n"
  shows "hex_group_dash n s = Some (gd, r) \<longleftrightarrow>
         (\<exists>g. gd = g @ ''-'' \<and> s = g @ ''-'' @ r \<and> length g = n \<and> list_all is_hex g)"
proof
  assume "hex_group_dash n s = Some (gd, r)"
  then obtain g r0 where h: "hex_run n s = Some (g, r0)" and r: "strip_prefix ''-'' r0 = Some r"
    and gd: "gd = g @ ''-''"
    by (auto simp: hex_group_dash_def split: option.splits if_splits)
  from h have "s = g @ r0" "length g = n" "list_all is_hex g" by (auto simp: hex_run_Some_iff)
  moreover from r have "r0 = ''-'' @ r" by (simp add: strip_prefix_Some_iff)
  ultimately show "\<exists>g. gd = g @ ''-'' \<and> s = g @ ''-'' @ r \<and> length g = n \<and> list_all is_hex g"
    using gd by auto
next
  assume "\<exists>g. gd = g @ ''-'' \<and> s = g @ ''-'' @ r \<and> length g = n \<and> list_all is_hex g"
  then obtain g where g: "gd = g @ ''-''" "s = g @ ''-'' @ r" "length g = n" "list_all is_hex g"
    by blast
  then have h: "hex_run n s = Some (g, ''-'' @ r)" by (simp add: hex_run_Some_iff)
  from g assms have "g \<noteq> []" by auto
  then have "word_boundary g (CHR ''-'' # r)" using g(4) by (rule word_boundary_hex_dash)
  then show "hex_group_dash n s = Some (gd, r)"
    using h g(1) by (simp add: hex_group_dash_def)
qed

lemma list_all2_replicate_True:
  "list_all2 (\<lambda>h c. if h then P c else Q c) (replicate n True) g \<longleftrightarrow> length g = n \<and> list_all P g"
proof (induction n arbitrary: g)
  case 0
  then show ?case by auto
next
  case (Suc n)
  then show ?case by (cases g) auto
qed

lemma list_all2_dash:
  "list_all2 (\<lambda>h c. if h then P c else c = d) [False] g \<longleftrightarrow> g = [d]"
  by (auto simp: list_all2_Cons1)

lemma list_all2_split:
  "list_all2 P (xs @ ys) zs \<longleftrightarrow>
     (\<exists>us vs. zs = us @ vs \<and> list_all2 P xs us \<and> list_all2 P ys vs)"
proof
  assume "list_all2 P (xs @ ys) zs"
  then show "\<exists>us vs. zs = us @ vs \<and> list_all2 P xs us \<and> list_all2 P ys vs"
    by (auto simp: list_all2_append1)
next
  assume "\<exists>us vs. zs = us @ vs \<and> list_all2 P xs us \<and> list_all2 P ys vs"
  then show "list_all2 P (xs @ ys) zs"
    by (auto intro: list_all2_appendI)
qed

lemma uuid_shaped_iff:
  "uuid_shaped u \<longleftrightarrow>
   (\<exists>g1 g2 g3 g4 g5.
      u = g1 @ ''-'' @ g2 @ ''-'' @ g3 @ ''-'' @ g4 @ ''-'' @ g5 \<and>
      length g1 = 8 \<and> list_all is_hex g1 \<and> length g2 = 4 \<and> list_all is_hex g2 \<and>
      length g3 = 4 \<and> list_all is_hex g3 \<and> length g4 = 4 \<and> list_all is_hex g4 \<and>
      length g5 = 12 \<and> list_all is_hex g5)"
  (is "_ \<longleftrightarrow> ?R")
proof
  let ?Q = "\<lambda>h c. if h then is_hex c else c = CHR ''-''"
  assume "uuid_shaped u"
  then have "list_all2 ?Q (replicate 8 True @ [False] @ replicate 4 True @ [False]
      @ replicate 4 True @ [False] @ replicate 4 True @ [False] @ replicate 12 True) u"
    by (simp only: uuid_shaped_def uuid_pattern_def)
  then obtain g1 v1 where 1: "u = g1 @ v1" "list_all2 ?Q (replicate 8 True) g1"
    and r1: "list_all2 ?Q ([False] @ replicate 4 True @ [False]
      @ replicate 4 True @ [False] @ replicate 4 True @ [False] @ replicate 12 True) v1"
    unfolding list_all2_split [of ?Q "replicate 8 True"] by blast
  from r1 obtain d1 w1 where 2: "v1 = d1 @ w1" "list_all2 ?Q [False] d1"
    and r2: "list_all2 ?Q (replicate 4 True @ [False]
      @ replicate 4 True @ [False] @ replicate 4 True @ [False] @ replicate 12 True) w1"
    unfolding list_all2_split [of ?Q "[False]"] by blast
  from r2 obtain g2 v2 where 3: "w1 = g2 @ v2" "list_all2 ?Q (replicate 4 True) g2"
    and r3: "list_all2 ?Q ([False]
      @ replicate 4 True @ [False] @ replicate 4 True @ [False] @ replicate 12 True) v2"
    unfolding list_all2_split [of ?Q "replicate 4 True"] by blast
  from r3 obtain d2 w2 where 4: "v2 = d2 @ w2" "list_all2 ?Q [False] d2"
    and r4: "list_all2 ?Q (replicate 4 True @ [False] @ replicate 4 True @ [False]
      @ replicate 12 True) w2"
    unfolding list_all2_split [of ?Q "[False]"] by blast
  from r4 obtain g3 v3 where 5: "w2 = g3 @ v3" "list_all2 ?Q (replicate 4 True) g3"
    and r5: "list_all2 ?Q ([False] @ replicate 4 True @ [False] @ replicate 12 True) v3"
    unfolding list_all2_split [of ?Q "replicate 4 True"] by blast
  from r5 obtain d3 w3 where 6: "v3 = d3 @ w3" "list_all2 ?Q [False] d3"
    and r6: "list_all2 ?Q (replicate 4 True @ [False] @ replicate 12 True) w3"
    unfolding list_all2_split [of ?Q "[False]"] by blast
  from r6 obtain g4 v4 where 7: "w3 = g4 @ v4" "list_all2 ?Q (replicate 4 True) g4"
    and r7: "list_all2 ?Q ([False] @ replicate 12 True) v4"
    unfolding list_all2_split [of ?Q "replicate 4 True"] by blast
  from r7 obtain d4 g5 where 8: "v4 = d4 @ g5" "list_all2 ?Q [False] d4"
    and 9: "list_all2 ?Q (replicate 12 True) g5"
    unfolding list_all2_split [of ?Q "[False]"] by blast
  have d: "d1 = ''-''" "d2 = ''-''" "d3 = ''-''" "d4 = ''-''"
    using 2(2) 4(2) 6(2) 8(2) by (simp_all only: list_all2_dash)
  have "u = g1 @ ''-'' @ g2 @ ''-'' @ g3 @ ''-'' @ g4 @ ''-'' @ g5"
    by (simp only: 1(1) 2(1) 3(1) 4(1) 5(1) 6(1) 7(1) 8(1) d)
  moreover have "length g1 = 8 \<and> list_all is_hex g1" "length g2 = 4 \<and> list_all is_hex g2"
    "length g3 = 4 \<and> list_all is_hex g3" "length g4 = 4 \<and> list_all is_hex g4"
    "length g5 = 12 \<and> list_all is_hex g5"
    using 1(2) 3(2) 5(2) 7(2) 9 by (simp_all only: list_all2_replicate_True)
  ultimately show ?R by blast
next
  let ?Q = "\<lambda>h c. if h then is_hex c else c = CHR ''-''"
  assume ?R
  then obtain g1 g2 g3 g4 g5 where
    u: "u = g1 @ ''-'' @ g2 @ ''-'' @ g3 @ ''-'' @ g4 @ ''-'' @ g5" and
    g: "length g1 = 8 \<and> list_all is_hex g1" "length g2 = 4 \<and> list_all is_hex g2"
       "length g3 = 4 \<and> list_all is_hex g3" "length g4 = 4 \<and> list_all is_hex g4"
       "length g5 = 12 \<and> list_all is_hex g5"
    by blast
  have h: "list_all2 ?Q (replicate 8 True) g1" "list_all2 ?Q (replicate 4 True) g2"
    "list_all2 ?Q (replicate 4 True) g3" "list_all2 ?Q (replicate 4 True) g4"
    "list_all2 ?Q (replicate 12 True) g5"
    using g by (simp_all only: list_all2_replicate_True)
  have dd: "list_all2 ?Q [False] ''-''" by (simp only: list_all2_dash)
  show "uuid_shaped u"
    unfolding uuid_shaped_def uuid_pattern_def u
    by (intro list_all2_appendI h dd)
qed

lemma uuid_shaped_length: "uuid_shaped u \<Longrightarrow> length u = 36"
proof -
  assume "uuid_shaped u"
  then have "length uuid_pattern = length u"
    unfolding uuid_shaped_def by (rule list_all2_lengthD)
  moreover have "length uuid_pattern = 36" by (simp add: uuid_pattern_def)
  ultimately show ?thesis by simp
qed

lemma hex_group_dash_append:
  assumes "0 < n" "length g = n" "list_all is_hex g"
  shows "hex_group_dash n (g @ ''-'' @ r) = Some (g @ ''-'', r)"
  using assms(2,3) by (subst hex_group_dash_Some_iff [OF assms(1)]) blast

lemma hex_group_dash_SomeD:
  assumes "hex_group_dash n s = Some (gd, r)" "0 < n"
  obtains g where "gd = g @ ''-''" "s = g @ ''-'' @ r" "length g = n" "list_all is_hex g"
  using assms(1) unfolding hex_group_dash_Some_iff [OF assms(2)] by blast

lemma match_uuid_Some_iff: "match_uuid s = Some u \<longleftrightarrow> (\<exists>r. s = u @ r \<and> uuid_shaped u)"
proof
  assume m: "match_uuid s = Some u"
  obtain g1 r1 where h1: "hex_group_dash 8 s = Some (g1, r1)"
    using m by (cases "hex_group_dash 8 s") (auto simp: match_uuid_def)
  obtain g2 r2 where h2: "hex_group_dash 4 r1 = Some (g2, r2)"
    using m h1 by (cases "hex_group_dash 4 r1") (auto simp: match_uuid_def)
  obtain g3 r3 where h3: "hex_group_dash 4 r2 = Some (g3, r3)"
    using m h1 h2 by (cases "hex_group_dash 4 r2") (auto simp: match_uuid_def)
  obtain g4 r4 where h4: "hex_group_dash 4 r3 = Some (g4, r4)"
    using m h1 h2 h3 by (cases "hex_group_dash 4 r3") (auto simp: match_uuid_def)
  obtain g5 r5 where h5: "hex_run 12 r4 = Some (g5, r5)"
    using m h1 h2 h3 h4 by (cases "hex_run 12 r4") (auto simp: match_uuid_def)
  have u: "u = g1 @ g2 @ g3 @ g4 @ g5"
    using m h1 h2 h3 h4 h5 by (simp add: match_uuid_def)
  obtain a1 where a1: "g1 = a1 @ ''-''" "s = a1 @ ''-'' @ r1" "length a1 = 8" "list_all is_hex a1"
    using h1 by (rule hex_group_dash_SomeD) simp
  obtain a2 where a2: "g2 = a2 @ ''-''" "r1 = a2 @ ''-'' @ r2" "length a2 = 4" "list_all is_hex a2"
    using h2 by (rule hex_group_dash_SomeD) simp
  obtain a3 where a3: "g3 = a3 @ ''-''" "r2 = a3 @ ''-'' @ r3" "length a3 = 4" "list_all is_hex a3"
    using h3 by (rule hex_group_dash_SomeD) simp
  obtain a4 where a4: "g4 = a4 @ ''-''" "r3 = a4 @ ''-'' @ r4" "length a4 = 4" "list_all is_hex a4"
    using h4 by (rule hex_group_dash_SomeD) simp
  from h5 have a5: "r4 = g5 @ r5" "length g5 = 12" "list_all is_hex g5"
    by (simp_all add: hex_run_Some_iff)
  have eq: "u = a1 @ ''-'' @ a2 @ ''-'' @ a3 @ ''-'' @ a4 @ ''-'' @ g5"
    unfolding u a1(1) a2(1) a3(1) a4(1) by simp
  have "uuid_shaped u"
    unfolding uuid_shaped_iff
    using eq a1(3,4) a2(3,4) a3(3,4) a4(3,4) a5(2,3) by (intro exI conjI)
  moreover have "s = u @ r5"
    unfolding u a1(2) a1(1) a2(2) a2(1) a3(2) a3(1) a4(2) a4(1) a5(1) by simp
  ultimately show "\<exists>r. s = u @ r \<and> uuid_shaped u" by (intro exI conjI)
next
  assume "\<exists>r. s = u @ r \<and> uuid_shaped u"
  then obtain r where s: "s = u @ r" and us: "uuid_shaped u" by (elim exE conjE)
  from us obtain g1 g2 g3 g4 g5 where
    u: "u = g1 @ ''-'' @ g2 @ ''-'' @ g3 @ ''-'' @ g4 @ ''-'' @ g5"
    and g: "length g1 = 8" "list_all is_hex g1" "length g2 = 4" "list_all is_hex g2"
      "length g3 = 4" "list_all is_hex g3" "length g4 = 4" "list_all is_hex g4"
      "length g5 = 12" "list_all is_hex g5"
    unfolding uuid_shaped_iff by (elim exE conjE)
  have s': "s = g1 @ ''-'' @ (g2 @ ''-'' @ (g3 @ ''-'' @ (g4 @ ''-'' @ (g5 @ r))))"
    unfolding s u by simp
  have 1: "hex_group_dash 8 s = Some (g1 @ ''-'', g2 @ ''-'' @ (g3 @ ''-'' @ (g4 @ ''-'' @ (g5 @ r))))"
    unfolding s' using g(1,2) by (intro hex_group_dash_append) simp_all
  have 2: "hex_group_dash 4 (g2 @ ''-'' @ (g3 @ ''-'' @ (g4 @ ''-'' @ (g5 @ r))))
             = Some (g2 @ ''-'', g3 @ ''-'' @ (g4 @ ''-'' @ (g5 @ r)))"
    using g(3,4) by (intro hex_group_dash_append) simp_all
  have 3: "hex_group_dash 4 (g3 @ ''-'' @ (g4 @ ''-'' @ (g5 @ r))) = Some (g3 @ ''-'', g4 @ ''-'' @ (g5 @ r))"
    using g(5,6) by (intro hex_group_dash_append) simp_all
  have 4: "hex_group_dash 4 (g4 @ ''-'' @ (g5 @ r)) = Some (g4 @ ''-'', g5 @ r)"
    using g(7,8) by (intro hex_group_dash_append) simp_all
  have 5: "hex_run 12 (g5 @ r) = Some (g5, r)"
    using g(9,10) by (simp add: hex_run_Some_iff)
  show "match_uuid s = Some u"
    unfolding match_uuid_def by (simp only: 1 2 3 4 5 option.case prod.case) (simp add: u)
qed

lemma match_marker_here_Some_iff:
  "match_marker_here s = Some u \<longleftrightarrow> (\<exists>r. s = ''sentry-dbid-'' @ u @ r \<and> uuid_shaped u)"
proof
  assume "match_marker_here s = Some u"
  then obtain t where t: "strip_prefix ''sentry-dbid-'' s = Some t" and m: "match_uuid t = Some u"
    by (auto simp: match_marker_here_def split: option.splits)
  from t have "s = ''sentry-dbid-'' @ t" by (simp only: strip_prefix_Some_iff)
  moreover from m obtain r where "t = u @ r" "uuid_shaped u" by (auto simp: match_uuid_Some_iff)
  ultimately show "\<exists>r. s = ''sentry-dbid-'' @ u @ r \<and> uuid_shaped u" by blast
next
  assume "\<exists>r. s = ''sentry-dbid-'' @ u @ r \<and> uuid_shaped u"
  then obtain r where s: "s = ''sentry-dbid-'' @ (u @ r)" and us: "uuid_shaped u" by auto
  have "strip_prefix ''sentry-dbid-'' s = Some (u @ r)"
    unfolding s by (rule strip_prefix_append)
  moreover have "match_uuid (u @ r) = Some u"
    using us unfolding match_uuid_Some_iff by blast
  ultimately show "match_marker_here s = Some u" by (simp only: match_marker_here_def option.case)
qed

lemma match_marker_here_drop:
  "match_marker_here (drop i s) = (if marker_at s i then Some (uuid_at s i) else None)"
proof (cases "marker_at s i")
  case True
  let ?u = "uuid_at s i"
  from True have t: "take 12 (drop i s) = ''sentry-dbid-''" and us: "uuid_shaped ?u"
    by (auto simp: marker_at_def)
  have "drop i s = take 12 (drop i s) @ drop 12 (drop i s)"
    by (simp only: append_take_drop_id)
  also have "drop 12 (drop i s) = ?u @ drop 36 (drop 12 (drop i s))"
    by (simp only: uuid_at_def append_take_drop_id)
  finally have "drop i s = ''sentry-dbid-'' @ ?u @ drop 36 (drop 12 (drop i s))"
    by (simp only: t)
  with us have "match_marker_here (drop i s) = Some ?u"
    unfolding match_marker_here_Some_iff by blast
  with True show ?thesis by simp
next
  case False
  have "match_marker_here (drop i s) = None"
  proof (rule ccontr)
    assume "match_marker_here (drop i s) \<noteq> None"
    then obtain u where "match_marker_here (drop i s) = Some u" by auto
    then obtain r where d: "drop i s = ''sentry-dbid-'' @ u @ r" and us: "uuid_shaped u"
      unfolding match_marker_here_Some_iff by blast
    have "take 12 (drop i s) = ''sentry-dbid-''" unfolding d by simp
    moreover have "uuid_at s i = u"
      unfolding uuid_at_def d using uuid_shaped_length [OF us] by simp
    ultimately have "marker_at s i" using us by (simp add: marker_at_def)
    with False show False by simp
  qed
  with False show ?thesis by simp
qed

lemma uuid_at_Cons_Suc: "uuid_at (c # cs) (Suc i) = uuid_at cs i"
  by (simp add: uuid_at_def)

lemma marker_at_Cons_Suc: "marker_at (c # cs) (Suc i) = marker_at cs i"
  by (simp add: marker_at_def uuid_at_Cons_Suc)

lemma marker_positions_Cons:
  "marker_positions (c # cs) =
     (if marker_at (c # cs) 0 then [0] else []) @ map Suc (marker_positions cs)"
proof -
  have "[0..<length (c # cs)] = 0 # map Suc [0..<length cs]"
    by (simp add: upt_conv_Cons map_Suc_upt del: upt_Suc)
  then show ?thesis
    by (simp add: marker_positions_def filter_map comp_def marker_at_Cons_Suc del: upt_Suc)
qed

lemma determineDebugId_positions:
  "determineDebugIdFromBundleSource s =
     (case marker_positions s of [] \<Rightarrow> None | i # _ \<Rightarrow> Some (uuid_at s i))"
proof (induction s)
  case Nil
  have "match_marker_here [] = None"
    by (simp add: match_marker_here_def)
  then show ?case by (simp add: marker_positions_def)
next
  case (Cons c cs)
  have m: "match_marker_here (c # cs) =
      (if marker_at (c # cs) 0 then Some (uuid_at (c # cs) 0) else None)"
    using match_marker_here_drop [of 0 "c # cs"] by simp
  show ?case
  proof (cases "marker_at (c # cs) 0")
    case True
    with m show ?thesis by (simp add: marker_positions_Cons)
  next
    case False
    with m Cons show ?thesis
      by (simp add: marker_positions_Cons uuid_at_Cons_Suc split: list.splits)
  qed
qed

text \<open>
  Claim C5. A text with exactly one well-formed marker, at position \<open>i\<close>, yields the 36
  characters after the marker prefix, unchanged. A text with no well-formed marker yields
  nothing, and the unit that reads it logs at debug level and returns: no file is written.
\<close>

theorem extraction_follows_markers:
  "(marker_positions s = [i] \<longrightarrow> determineDebugIdFromBundleSource s = Some (uuid_at s i)) \<and>
   (marker_positions s = [] \<longrightarrow>
      determineDebugIdFromBundleSource s = None \<and>
      (files w bundleFilePath = Some s \<longrightarrow>
         prepareBundleForDebugIdUpload P bundleFilePath uploadFolder chunkIndex hook w
           = (None, log (LogDebug (msg_no_debug_id bundleFilePath)) w)))"
  by (simp add: determineDebugId_positions prepareBundleForDebugIdUpload_def readFile_def)

theorem extraction_follows_markers_witness:
  "marker_positions ''var x=\"sentry-dbid-0123abCD-0123-4567-89ab-0123456789AB\";'' = [7] \<and>
   determineDebugIdFromBundleSource ''var x=\"sentry-dbid-0123abCD-0123-4567-89ab-0123456789AB\";''
     = Some ''0123abCD-0123-4567-89ab-0123456789AB'' \<and>
   marker_positions ''var x=\"sentry-dbid-0123abCD-0123-4567-89ab-0123456789A\";'' = [] \<and>
   determineDebugIdFromBundleSource ''var x=\"sentry-dbid-0123abCD-0123-4567-89ab-0123456789A\";'' = None \<and>
   (prepareBundleForDebugIdUpload node_posix ''/dist/app.js'' ''/tmp/up'' 0 (default_hook node_posix)
            \<lparr>files = [''/dist/app.js'' \<mapsto> ''var x=\"sentry-dbid-0123abCD-0123-4567-89ab-0123456789A\";''],
             dirs = {}, locked = {}, events = [], in_flight = []\<rparr>
          = (None, log (LogDebug (msg_no_debug_id ''/dist/app.js''))
               \<lparr>files = [''/dist/app.js'' \<mapsto> ''var x=\"sentry-dbid-0123abCD-0123-4567-89ab-0123456789A\";''],
                dirs = {}, locked = {}, events = [], in_flight = []\<rparr>))"
proof -
  let ?s1 = "''var x=\"sentry-dbid-0123abCD-0123-4567-89ab-0123456789AB\";''"
  let ?s2 = "''var x=\"sentry-dbid-0123abCD-0123-4567-89ab-0123456789A\";''"
  let ?w = "\<lparr>files = [''/dist/app.js'' \<mapsto> ?s2], dirs = {}, locked = {}, events = [],
             in_flight = []\<rparr>"
  have p1: "marker_positions ?s1 = [7]" by code_simp
  have u1: "uuid_at ?s1 7 = ''0123abCD-0123-4567-89ab-0123456789AB''" by code_simp
  have p2: "marker_positions ?s2 = []" by code_simp
  have f: "files ?w ''/dist/app.js'' = Some ?s2" by simp
  from extraction_follows_markers [of ?s1 7] p1 u1
  have a: "determineDebugIdFromBundleSource ?s1 = Some ''0123abCD-0123-4567-89ab-0123456789AB''"
    by simp
  from extraction_follows_markers [of ?s2 0 ?w "''/dist/app.js''" node_posix "''/tmp/up''" 0
      "default_hook node_posix"] p2 f
  have b: "determineDebugIdFromBundleSource ?s2 = None \<and>
    prepareBundleForDebugIdUpload node_posix ''/dist/app.js'' ''/tmp/up'' 0
        (default_hook node_posix) ?w = (None, log (LogDebug (msg_no_debug_id ''/dist/app.js'')) ?w)"
    by blast
  from p1 a p2 b show ?thesis by blast
qed

section \<open>The default rewrite hook\<close>

lemma colon_not_scheme_char: "\<not> is_scheme_char (CHR '':'')"
  by (simp add: is_scheme_char_def is_alpha_def is_digit_def)

lemma match_protocol_scheme:
  assumes "uri_scheme sch"
  shows "match_protocol (sch @ ''://'' @ rest) = Some rest"
proof -
  from assms obtain c t where sch: "sch = c # t" and c: "is_alpha c"
    and t: "list_all is_scheme_char t"
    by (cases sch) (auto simp: uri_scheme_def)
  from t have "dropWhile is_scheme_char (t @ ''://'' @ rest) = dropWhile is_scheme_char (''://'' @ rest)"
    by (intro dropWhile_append2) (simp add: list_all_iff)
  also have "\<dots> = ''://'' @ rest"
    by (simp add: colon_not_scheme_char)
  finally have d: "dropWhile is_scheme_char (t @ ''://'' @ rest) = ''://'' @ rest" .
  have "match_protocol (c # (t @ ''://'' @ rest)) = strip_prefix ''://'' (''://'' @ rest)"
    unfolding match_protocol_def using c d by (simp only: list.case if_True)
  then show ?thesis
    unfolding sch by simp
qed

lemma match_protocol_has_prefix:
  assumes "match_protocol s = Some rest"
  shows "has_scheme_prefix s"
proof -
  from assms obtain c cs where s: "s = c # cs" and c: "is_alpha c"
    and d: "strip_prefix ''://'' (dropWhile is_scheme_char cs) = Some rest"
    by (cases s) (auto simp: match_protocol_def split: if_splits)
  let ?t = "takeWhile is_scheme_char cs"
  from d have dw: "dropWhile is_scheme_char cs = ''://'' @ rest"
    by (simp only: strip_prefix_Some_iff)
  have cs: "cs = ?t @ ''://'' @ rest"
    using takeWhile_dropWhile_id [of is_scheme_char cs] dw by simp
  let ?n = "Suc (length ?t)"
  have "take ?n s = c # ?t"
    unfolding s by (subst cs) simp
  moreover have "list_all is_scheme_char ?t"
    by (simp add: list_all_iff) (meson set_takeWhileD)
  ultimately have u: "uri_scheme (take ?n s)"
    using c by (simp add: uri_scheme_def)
  have "drop ?n s = ''://'' @ rest"
    unfolding s by (subst cs) simp
  then have t3: "take 3 (drop ?n s) = ''://''" by simp
  have "?n < length s"
    unfolding s by (subst (2) cs) simp
  then have "?n \<in> set [0..<length s]" by simp
  with u t3 show ?thesis
    unfolding has_scheme_prefix_def list_ex_iff by blast
qed

text \<open>
  Claim C8. On a string that starts with a URI scheme followed by \<^verbatim>\<open>://\<close> the default hook
  returns what follows the separator; on every other string it returns
  \<^verbatim>\<open>path.relative(process.cwd(), path.normalize(source))\<close>.
\<close>

theorem default_hook_strips_scheme_or_relativises:
  "(uri_scheme sch \<longrightarrow> defaultRewriteSourcesHook P (sch @ ''://'' @ rest) = rest) \<and>
   (\<not> has_scheme_prefix s \<longrightarrow>
      defaultRewriteSourcesHook P s = path_relative P (process_cwd P) (path_normalize P s)) \<and>
   defaultRewriteSourcesHook P ''https://cdn.example.com/app.js'' = ''cdn.example.com/app.js''"
proof (intro conjI impI)
  assume "uri_scheme sch"
  then show "defaultRewriteSourcesHook P (sch @ ''://'' @ rest) = rest"
    by (simp only: defaultRewriteSourcesHook_def match_protocol_scheme option.case)
next
  assume n: "\<not> has_scheme_prefix s"
  have "match_protocol s = None"
  proof (cases "match_protocol s")
    case (Some rest)
    then have "has_scheme_prefix s" by (rule match_protocol_has_prefix)
    with n show ?thesis by simp
  qed simp
  then show "defaultRewriteSourcesHook P s = path_relative P (process_cwd P) (path_normalize P s)"
    by (simp only: defaultRewriteSourcesHook_def option.case)
next
  have "uri_scheme ''https''" by code_simp
  then have "match_protocol (''https'' @ ''://'' @ ''cdn.example.com/app.js'') = Some ''cdn.example.com/app.js''"
    by (rule match_protocol_scheme)
  then show "defaultRewriteSourcesHook P ''https://cdn.example.com/app.js'' = ''cdn.example.com/app.js''"
    by (simp add: defaultRewriteSourcesHook_def)
qed

theorem default_hook_strips_scheme_or_relativises_witness:
  "uri_scheme ''webpack'' \<and>
   defaultRewriteSourcesHook node_posix ''webpack://app/src/index.ts'' = ''app/src/index.ts'' \<and>
   \<not> has_scheme_prefix ''/home/ci/project/src/./util.ts'' \<and>
   defaultRewriteSourcesHook node_posix ''/home/ci/project/src/./util.ts'' = ''src/util.ts''"
proof -
  have h1: "uri_scheme ''webpack''" by code_simp
  have h2: "\<not> has_scheme_prefix ''/home/ci/project/src/./util.ts''" by code_simp
  have r: "path_relative node_posix (process_cwd node_posix)
             (path_normalize node_posix ''/home/ci/project/src/./util.ts'') = ''src/util.ts''"
    by code_simp
  from default_hook_strips_scheme_or_relativises
         [of "''webpack''" node_posix "''app/src/index.ts''" "''/home/ci/project/src/./util.ts''"]
       h1 h2 r
  show ?thesis by simp
qed

section \<open>The source-map transformer\<close>

lemma map_of_set_field:
  "map_of (set_field k v kvs) k' = (if k' = k then Some v else map_of kvs k')"
  by (induction kvs) auto

lemma map_hook_total:
  "\<forall>src\<in>set srcs. \<forall>d. \<exists>s. hook src d = Inr s \<Longrightarrow> \<exists>ss. map_hook hook doc srcs = Inr ss"
proof (induction srcs)
  case Nil
  then show ?case by simp
next
  case (Cons src srcs)
  then obtain s ss where "hook src doc = Inr s" "map_hook hook doc srcs = Inr ss"
    by (metis list.set_intros(1,2))
  then show ?case by simp
qed

lemma rewrite_sources_keeps_document:
  "rewrite_sources hook doc = Inr doc' \<Longrightarrow> doc' = doc"
  by (auto simp: rewrite_sources_def split: option.splits json.splits sum.splits)

lemma rewrite_sources_total:
  assumes "\<forall>src\<in>set (sources_of doc). \<forall>d. \<exists>s. hook src d = Inr s"
  shows "rewrite_sources hook doc = Inr doc"
proof (cases "\<exists>srcs. get_property doc ''sources'' = Some (JArr srcs)")
  case True
  then obtain srcs where g: "get_property doc ''sources'' = Some (JArr srcs)" by blast
  then have "sources_of doc = srcs" by (simp add: sources_of_def)
  with assms obtain ss where "map_hook hook doc srcs = Inr ss"
    using map_hook_total [of srcs hook doc] by blast
  with g show ?thesis by (simp add: rewrite_sources_def)
next
  case False
  then show ?thesis
    by (auto simp: rewrite_sources_def split: option.splits json.splits)
qed

lemma sources_of_injected:
  "sources_of (JObj (set_field ''debugId'' v (set_field ''debug_id'' v kvs))) = sources_of (JObj kvs)"
  by (simp add: sources_of_def map_of_set_field)

text \<open>
  Claim C7. When the map file is read, parses to a key/value document, the hook does not
  throw on its sources and the destination can be written, the text written there
  serialises a document whose fields \<^verbatim>\<open>debug_id\<close> and \<^verbatim>\<open>debugId\<close> both hold the
  identifier.
\<close>

theorem written_map_carries_both_ids:
  assumes "files w sourceMapPath = Some content"
    and "JSON_parse P content = Some (JObj kvs)"
    and "\<forall>src\<in>set (sources_of (JObj kvs)). \<forall>d. \<exists>s. hook src d = Inr s"
    and "targetPath \<notin> locked w"
  shows "\<exists>kvs'. prepareSourceMapForDebugIdUpload P sourceMapPath targetPath debugId hook w
                  = (None, w\<lparr>files := (files w)(targetPath \<mapsto> JSON_stringify P (JObj kvs'))\<rparr>) \<and>
               map_of kvs' ''debug_id'' = Some (JStr debugId) \<and>
               map_of kvs' ''debugId'' = Some (JStr debugId)"
proof -
  let ?kvs' = "set_field ''debugId'' (JStr debugId) (set_field ''debug_id'' (JStr debugId) kvs)"
  have inj: "parse_and_inject P content debugId = Some (JObj ?kvs')"
    using assms(2) by (simp add: parse_and_inject_def)
  have "\<forall>src\<in>set (sources_of (JObj ?kvs')). \<forall>d. \<exists>s. hook src d = Inr s"
    using assms(3) by (simp only: sources_of_injected)
  then have rw: "rewrite_sources hook (JObj ?kvs') = Inr (JObj ?kvs')"
    by (rule rewrite_sources_total)
  have "prepareSourceMapForDebugIdUpload P sourceMapPath targetPath debugId hook w
          = (None, w\<lparr>files := (files w)(targetPath \<mapsto> JSON_stringify P (JObj ?kvs'))\<rparr>)"
    using assms(1,4) inj rw
    by (simp add: prepareSourceMapForDebugIdUpload_def readFile_def writeFile_def)
  moreover have "map_of ?kvs' ''debug_id'' = Some (JStr debugId)"
    by (simp add: map_of_set_field)
  moreover have "map_of ?kvs' ''debugId'' = Some (JStr debugId)"
    by (simp add: map_of_set_field)
  ultimately show ?thesis by blast
qed


theorem written_map_carries_both_ids_witness:
  "files example_world ''/dist/app.js.map'' = Some example_map_text \<and>
   JSON_parse node_posix example_map_text
     = Some (JObj [(''version'', JNum 3),
                   (''sources'', JArr [JStr ''https://cdn.example.com/app.js'',
                                       JStr ''/home/ci/project/src/util.ts'']),
                   (''mappings'', JStr ''AAAA'')]) \<and>
   sources_of (JObj [(''version'', JNum 3),
                   (''sources'', JArr [JStr ''https://cdn.example.com/app.js'',
                                       JStr ''/home/ci/project/src/util.ts'']),
                   (''mappings'', JStr ''AAAA'')])
     = [JStr ''https://cdn.example.com/app.js'', JStr ''/home/ci/project/src/util.ts''] \<and>
   ''/tmp/up/x.js.map'' \<notin> locked example_world \<and>
   (\<exists>kvs'. prepareSourceMapForDebugIdUpload node_posix ''/dist/app.js.map'' ''/tmp/up/x.js.map''
              example_id (default_hook node_posix) example_world
            = (None, example_world\<lparr>files := (files example_world)
                 (''/tmp/up/x.js.map'' \<mapsto> JSON_stringify node_posix (JObj kvs'))\<rparr>) \<and>
            map_of kvs' ''debug_id'' = Some (JStr example_id) \<and>
            map_of kvs' ''debugId'' = Some (JStr example_id))"
proof -
  let ?kvs = "[(''version'', JNum 3),
               (''sources'', JArr [JStr ''https://cdn.example.com/app.js'',
                                   JStr ''/home/ci/project/src/util.ts'']),
               (''mappings'', JStr ''AAAA'')]"
  have h1: "files example_world ''/dist/app.js.map'' = Some example_map_text"
    by (simp add: example_world_def)
  have h2: "JSON_parse node_posix example_map_text = Some (JObj ?kvs)"
    by code_simp
  have s: "sources_of (JObj ?kvs)
             = [JStr ''https://cdn.example.com/app.js'', JStr ''/home/ci/project/src/util.ts'']"
    by code_simp
  have h3: "\<forall>src\<in>set (sources_of (JObj ?kvs)). \<forall>d. \<exists>s. default_hook node_posix src d = Inr s"
    unfolding s by (simp add: default_hook_def)
  have h4: "''/tmp/up/x.js.map'' \<notin> locked example_world"
    by (simp add: example_world_def)
  from written_map_carries_both_ids [OF h1 h2 h3 h4, of example_id] h1 h2 s h4
  show ?thesis by blast
qed

text \<open>
  Claim C1, at a failing input. The default hook turns the first entry of \<^verbatim>\<open>sources\<close> into
  \<^verbatim>\<open>cdn.example.com/app.js\<close> and the second into \<^verbatim>\<open>src/util.ts\<close>, and the map written to
  the destination still lists the two original entries: the array the hook fills is dropped.
\<close>

theorem rewritten_sources_are_dropped:
  "default_hook node_posix (JStr ''https://cdn.example.com/app.js'') d = Inr ''cdn.example.com/app.js'' \<and>
   default_hook node_posix (JStr ''/home/ci/project/src/util.ts'') d = Inr ''src/util.ts'' \<and>
   prepareSourceMapForDebugIdUpload node_posix ''/dist/app.js.map'' ''/tmp/up/x.js.map''
       example_id (default_hook node_posix) example_world
     = (None, example_world\<lparr>files := (files example_world)
          (''/tmp/up/x.js.map'' \<mapsto>
             stringify (JObj [(''version'', JNum 3),
                              (''sources'', JArr [JStr ''https://cdn.example.com/app.js'',
                                                  JStr ''/home/ci/project/src/util.ts'']),
                              (''mappings'', JStr ''AAAA''),
                              (''debug_id'', JStr example_id),
                              (''debugId'', JStr example_id)]))\<rparr>)"
proof -
  let ?doc = "JObj [(''version'', JNum 3),
                    (''sources'', JArr [JStr ''https://cdn.example.com/app.js'',
                                        JStr ''/home/ci/project/src/util.ts'']),
                    (''mappings'', JStr ''AAAA''),
                    (''debug_id'', JStr example_id),
                    (''debugId'', JStr example_id)]"
  have a: "defaultRewriteSourcesHook node_posix ''https://cdn.example.com/app.js'' = ''cdn.example.com/app.js''"
    by code_simp
  have b: "defaultRewriteSourcesHook node_posix ''/home/ci/project/src/util.ts'' = ''src/util.ts''"
    by code_simp
  have inj: "parse_and_inject node_posix example_map_text example_id = Some ?doc"
    by code_simp
  have rw: "rewrite_sources (default_hook node_posix) ?doc = Inr ?doc"
    by code_simp
  have st: "JSON_stringify node_posix = stringify"
    by (simp add: node_posix_def)
  have rd: "files example_world ''/dist/app.js.map'' = Some example_map_text"
    by (simp add: example_world_def)
  have lk: "''/tmp/up/x.js.map'' \<notin> locked example_world"
    by (simp add: example_world_def)
  have "prepareSourceMapForDebugIdUpload node_posix ''/dist/app.js.map'' ''/tmp/up/x.js.map''
       example_id (default_hook node_posix) example_world
     = (None, example_world\<lparr>files := (files example_world)
          (''/tmp/up/x.js.map'' \<mapsto> stringify ?doc)\<rparr>)"
    unfolding prepareSourceMapForDebugIdUpload_def
    by (simp add: readFile_def writeFile_def rd lk inj rw st)
  with a b show ?thesis by (simp add: default_hook_def)
qed

section \<open>The source-map locator\<close>

lemma stamped_text_never_matches:
  "match_sourceMappingURL (stamp bundleContent debugId) = None"
proof (cases "strip_prefix ''//# sourceMappingURL='' (stamp bundleContent debugId)")
  case None
  then show ?thesis by (simp add: match_sourceMappingURL_def)
next
  case (Some v)
  then have "''//# sourceMappingURL='' @ v = bundleContent @ [CHR 0x0A] @ ''//# debugId='' @ debugId"
    by (simp only: strip_prefix_Some_iff stamp_def)
  then have "CHR 0x0A \<in> set (''//# sourceMappingURL='' @ v)"
    by (simp only: set_append) simp
  then have "CHR 0x0A \<in> set v" by simp
  then have "dropWhile (\<lambda>c. \<not> is_line_terminator c) v \<noteq> []"
    by (auto simp: dropWhile_eq_Nil_conv is_line_terminator_def)
  with Some show ?thesis by (simp add: match_sourceMappingURL_def)
qed

lemma locator_in_preparer_probes_sibling:
  "determineSourceMapPathFromBundle P bundlePath (stamp bundleContent debugId) w =
     (if access w (bundlePath @ ''.map'') then (Some (bundlePath @ ''.map''), w)
      else (None, log (LogDebug (msg_no_source_map bundlePath)) w))"
  by (simp add: determineSourceMapPathFromBundle_def stamped_text_never_matches)

text \<open>
  Claim C2, at a failing input. The bundle ends with the line
  \<^verbatim>\<open>//# sourceMappingURL=/maps/app.js.map\<close>, the named map exists and so does
  \<^verbatim>\<open>/dist/app.js.map\<close>. The expression is anchored at both ends of the whole text, so it
  does not match, neither on the text as read nor on the text the preparer passes, and the
  locator answers with the sibling.
\<close>

theorem trailing_comment_is_not_found:
  "files example_world ''/maps/app.js.map'' = Some example_map_text \<and>
   match_sourceMappingURL example_bundle = None \<and>
   determineSourceMapPathFromBundle node_posix ''/dist/app.js'' example_bundle example_world
     = (Some ''/dist/app.js.map'', example_world) \<and>
   determineSourceMapPathFromBundle node_posix ''/dist/app.js'' (stamp example_bundle example_id)
       example_world
     = (Some ''/dist/app.js.map'', example_world)"
proof -
  have f: "files example_world ''/maps/app.js.map'' = Some example_map_text"
    by (simp add: example_world_def)
  have m: "match_sourceMappingURL example_bundle = None" by code_simp
  have m': "match_sourceMappingURL (stamp example_bundle example_id) = None" by code_simp
  have a: "access example_world (''/dist/app.js'' @ ''.map'')"
    by (simp add: access_def example_world_def)
  from f m m' a show ?thesis
    by (simp add: determineSourceMapPathFromBundle_def)
qed

section \<open>The bundle preparer names its two outputs after the identifier and the chunk index\<close>

lemma show_nat_nonempty: "show_nat n \<noteq> []"
  by (subst show_nat.simps) simp

lemma last_show_nat: "last (show_nat n) = digit_char (n mod 10)"
  by (subst show_nat.simps) simp

lemma butlast_show_nat: "butlast (show_nat n) = (if n < 10 then [] else show_nat (n div 10))"
  by (subst show_nat.simps) simp

lemma digit_char_code: "d < 10 \<Longrightarrow> (of_char (digit_char d) :: nat) = 48 + d"
  by (simp add: digit_char_def)

lemma show_nat_examples: "show_nat 0 = ''0''" "show_nat (Suc 0) = ''1''" "show_nat 12 = ''12''"
  by code_simp+

lemma digit_char_inj:
  assumes "a < 10" "b < 10" "digit_char a = digit_char b"
  shows "a = b"
proof -
  have "(of_char (digit_char a) :: nat) = of_char (digit_char b)"
    by (simp only: assms(3))
  then have "48 + a = 48 + b"
    by (simp only: digit_char_code [OF assms(1)] digit_char_code [OF assms(2)])
  then show ?thesis by simp
qed

lemma show_nat_inj: "show_nat a = show_nat b \<Longrightarrow> a = b"
proof (induction a arbitrary: b rule: show_nat.induct)
  case (1 a)
  from "1.prems" have "last (show_nat a) = last (show_nat b)" by simp
  then have "digit_char (a mod 10) = digit_char (b mod 10)" by (simp only: last_show_nat)
  then have m: "a mod 10 = b mod 10" by (intro digit_char_inj) simp_all
  from "1.prems" have "butlast (show_nat a) = butlast (show_nat b)" by simp
  then have bl: "(if a < 10 then [] else show_nat (a div 10)) = (if b < 10 then [] else show_nat (b div 10))"
    by (simp only: butlast_show_nat)
  show ?case
  proof (cases "a < 10")
    case True
    with bl show_nat_nonempty [of "b div 10"] have "b < 10" by (auto split: if_splits)
    with True m show ?thesis by simp
  next
    case False
    with bl show_nat_nonempty [of "a div 10"] have nb: "\<not> b < 10" by (auto split: if_splits)
    with False bl have "show_nat (a div 10) = show_nat (b div 10)" by simp
    with False have "a div 10 = b div 10" by (intro "1.IH") simp_all
    with m show ?thesis by (metis div_mult_mod_eq)
  qed
qed

lemma uniqueUploadName_inj:
  "uniqueUploadName debugId i = uniqueUploadName debugId j \<Longrightarrow> i = j"
  by (simp add: uniqueUploadName_def show_nat_inj)

lemma files_log [simp]: "files (log e w) = files w"
  by (simp add: log_def)

lemma locked_log [simp]: "locked (log e w) = locked w"
  by (simp add: log_def)

lemma locator_keeps_files:
  "determineSourceMapPathFromBundle P bundlePath bundleSource w = (r, w') \<Longrightarrow>
     files w' = files w \<and> locked w' = locked w"
  by (auto simp: determineSourceMapPathFromBundle_def Let_def split: option.splits if_splits)

lemma transformer_writes_target_only:
  "prepareSourceMapForDebugIdUpload P sourceMapPath targetPath debugId hook w = (r, w') \<Longrightarrow>
     p \<noteq> targetPath \<Longrightarrow> files w' p = files w p"
  by (auto simp: prepareSourceMapForDebugIdUpload_def writeFile_def
      split: sum.splits option.splits if_splits)


lemma preparer_write_rejected:
  assumes "files w bundleFilePath = Some content"
    and "determineDebugIdFromBundleSource content = Some debugId"
    and "writeFile (path_join P uploadFolder (uniqueUploadName debugId chunkIndex @ ''.js''))
           (stamp content debugId) w = Inl e"
  shows "prepareBundleForDebugIdUpload P bundleFilePath uploadFolder chunkIndex hook w
           = (Some e, leave (MapPipeline bundleFilePath chunkIndex) w)"
  unfolding prepareBundleForDebugIdUpload_def readFile_def
  by (simp only: assms option.case sum.case Let_def)

lemma preparer_write_fulfilled:
  assumes "files w bundleFilePath = Some content"
    and "determineDebugIdFromBundleSource content = Some debugId"
    and "writeFile (path_join P uploadFolder (uniqueUploadName debugId chunkIndex @ ''.js''))
           (stamp content debugId) w = Inr w1"
    and "determineSourceMapPathFromBundle P bundleFilePath (stamp content debugId) w1 = (sm, w2)"
  shows "prepareBundleForDebugIdUpload P bundleFilePath uploadFolder chunkIndex hook w
           = (case sm of
                None \<Rightarrow> (None, w2)
              | Some p \<Rightarrow>
                  if p \<noteq> []
                  then prepareSourceMapForDebugIdUpload P p
                         (path_join P uploadFolder (uniqueUploadName debugId chunkIndex @ ''.js.map''))
                         debugId hook w2
                  else (None, w2))"
  unfolding prepareBundleForDebugIdUpload_def readFile_def
  by (simp only: assms option.case sum.case Let_def prod.case)

lemma files_leave [simp]: "files (leave p w) = files w"
  by (simp add: leave_def)

text \<open>
  Claim C6. A unit that finds an identifier changes no file other than
  \<^verbatim>\<open>path.join(uploadFolder, name + ".js")\<close> and \<^verbatim>\<open>path.join(uploadFolder, name + ".js.map")\<close>,
  where \<open>name\<close> is the identifier, a dash and the decimal chunk index; the first of the
  two receives the stamped bundle text. Two chunk indices never give the same name, and
  the indices 0 and 1 give \<^verbatim>\<open><id>-0.js\<close> and \<^verbatim>\<open><id>-1.js\<close>.
\<close>

theorem staged_pair_shares_basename:
  assumes "files w bundleFilePath = Some content"
    and "determineDebugIdFromBundleSource content = Some debugId"
    and "prepareBundleForDebugIdUpload P bundleFilePath uploadFolder chunkIndex hook w = (r, w')"
  shows "(\<forall>p. files w' p \<noteq> files w p \<longrightarrow>
            p = path_join P uploadFolder (uniqueUploadName debugId chunkIndex @ ''.js'') \<or>
            p = path_join P uploadFolder (uniqueUploadName debugId chunkIndex @ ''.js.map'')) \<and>
         (path_join P uploadFolder (uniqueUploadName debugId chunkIndex @ ''.js'') \<notin> locked w \<and>
          path_join P uploadFolder (uniqueUploadName debugId chunkIndex @ ''.js'')
            \<noteq> path_join P uploadFolder (uniqueUploadName debugId chunkIndex @ ''.js.map'') \<longrightarrow>
            files w' (path_join P uploadFolder (uniqueUploadName debugId chunkIndex @ ''.js''))
              = Some (stamp content debugId)) \<and>
         uniqueUploadName debugId chunkIndex = debugId @ ''-'' @ show_nat chunkIndex \<and>
         (\<forall>j. uniqueUploadName debugId j = uniqueUploadName debugId chunkIndex \<longrightarrow> j = chunkIndex) \<and>
         uniqueUploadName debugId 0 @ ''.js'' = debugId @ ''-0.js'' \<and>
         uniqueUploadName debugId 1 @ ''.js'' = debugId @ ''-1.js''"
proof -
  let ?js = "path_join P uploadFolder (uniqueUploadName debugId chunkIndex @ ''.js'')"
  let ?mp = "path_join P uploadFolder (uniqueUploadName debugId chunkIndex @ ''.js.map'')"
  have changed: "files w' p = files w p \<or> p = ?js \<or> p = ?mp" for p
  proof (cases "writeFile ?js (stamp content debugId) w")
    case (Inl e)
    with assms have "w' = leave (MapPipeline bundleFilePath chunkIndex) w"
      by (simp add: preparer_write_rejected)
    then show ?thesis by simp
  next
    case (Inr w1)
    then have f1: "files w1 = (files w)(?js \<mapsto> stamp content debugId)"
      by (auto simp: writeFile_def split: if_splits)
    obtain sm w2 where loc:
      "determineSourceMapPathFromBundle P bundleFilePath (stamp content debugId) w1 = (sm, w2)"
      by (cases "determineSourceMapPathFromBundle P bundleFilePath (stamp content debugId) w1") blast
    have f2: "files w2 = files w1"
      using locator_keeps_files [OF loc] by simp
    note u = preparer_write_fulfilled [OF assms(1,2) Inr loc, of hook]
    have f3: "files w' q = files w2 q" if "q \<noteq> ?mp" for q
    proof (cases sm)
      case None
      with u assms(3) show ?thesis by simp
    next
      case (Some m)
      show ?thesis
      proof (cases "m = []")
        case True
        with Some u assms(3) show ?thesis by simp
      next
        case False
        with Some u assms(3)
        have "prepareSourceMapForDebugIdUpload P m ?mp debugId hook w2 = (r, w')"
          by simp
        then show ?thesis using that by (rule transformer_writes_target_only)
      qed
    qed
    show ?thesis
    proof (cases "p = ?js \<or> p = ?mp")
      case True
      then show ?thesis by blast
    next
      case False
      then have "files w' p = files w p" by (simp add: f3 f2 f1)
      then show ?thesis by simp
    qed
  qed
  have a: "\<forall>p. files w' p \<noteq> files w p \<longrightarrow> p = ?js \<or> p = ?mp"
    using changed by blast
  have b: "?js \<notin> locked w \<and> ?js \<noteq> ?mp \<longrightarrow> files w' ?js = Some (stamp content debugId)"
  proof
    assume h: "?js \<notin> locked w \<and> ?js \<noteq> ?mp"
    then have wr: "writeFile ?js (stamp content debugId) w
        = Inr (w\<lparr>files := (files w)(?js \<mapsto> stamp content debugId)\<rparr>)"
      by (simp add: writeFile_def)
    let ?w1 = "w\<lparr>files := (files w)(?js \<mapsto> stamp content debugId)\<rparr>"
    obtain sm w2 where loc:
      "determineSourceMapPathFromBundle P bundleFilePath (stamp content debugId) ?w1 = (sm, w2)"
      by (cases "determineSourceMapPathFromBundle P bundleFilePath (stamp content debugId) ?w1") blast
    have f2: "files w2 = files ?w1"
      using locator_keeps_files [OF loc] by simp
    note u = preparer_write_fulfilled [OF assms(1,2) wr loc, of hook]
    have "files w' ?js = files w2 ?js"
    proof (cases sm)
      case None
      with u assms(3) show ?thesis by simp
    next
      case (Some m)
      show ?thesis
      proof (cases "m = []")
        case True
        with Some u assms(3) show ?thesis by simp
      next
        case False
        with Some u assms(3)
        have pm: "prepareSourceMapForDebugIdUpload P m ?mp debugId hook w2 = (r, w')"
          by simp
        from h have "?js \<noteq> ?mp" by simp
        with pm show ?thesis by (rule transformer_writes_target_only)
      qed
    qed
    then show "files w' ?js = Some (stamp content debugId)"
      by (simp add: f2)
  qed
  have c: "uniqueUploadName debugId chunkIndex = debugId @ ''-'' @ show_nat chunkIndex"
    by (simp add: uniqueUploadName_def)
  have d: "\<forall>j. uniqueUploadName debugId j = uniqueUploadName debugId chunkIndex \<longrightarrow> j = chunkIndex"
    by (blast dest: uniqueUploadName_inj)
  have e: "uniqueUploadName debugId 0 @ ''.js'' = debugId @ ''-0.js''"
    "uniqueUploadName debugId 1 @ ''.js'' = debugId @ ''-1.js''"
    by (simp_all add: uniqueUploadName_def show_nat_examples)
  from a b c d e show ?thesis by (intro conjI)
qed

theorem staged_pair_shares_basename_witness:
  "files example_world ''/dist/app.js'' = Some example_bundle \<and>
   determineDebugIdFromBundleSource example_bundle = Some example_id \<and>
   path_join node_posix ''/tmp/up'' (uniqueUploadName example_id 1 @ ''.js'')
     = ''/tmp/up/0123abCD-0123-4567-89ab-0123456789AB-1.js'' \<and>
   path_join node_posix ''/tmp/up'' (uniqueUploadName example_id 1 @ ''.js.map'')
     = ''/tmp/up/0123abCD-0123-4567-89ab-0123456789AB-1.js.map'' \<and>
   ''/tmp/up/0123abCD-0123-4567-89ab-0123456789AB-1.js'' \<notin> locked example_world \<and>
   files (snd (prepareBundleForDebugIdUpload node_posix ''/dist/app.js'' ''/tmp/up'' 1
                 (default_hook node_posix) example_world))
         ''/tmp/up/0123abCD-0123-4567-89ab-0123456789AB-1.js''
     = Some (stamp example_bundle example_id) \<and>
   files (snd (prepareBundleForDebugIdUpload node_posix ''/dist/app.js'' ''/tmp/up'' 1
                 (default_hook node_posix) example_world)) ''/dist/app.js.map''
     = files example_world ''/dist/app.js.map'' \<and>
   uniqueUploadName example_id 0 @ ''.js'' \<noteq> uniqueUploadName example_id 1 @ ''.js''"
proof -
  let ?X = "prepareBundleForDebugIdUpload node_posix ''/dist/app.js'' ''/tmp/up'' 1
              (default_hook node_posix) example_world"
  have h1: "files example_world ''/dist/app.js'' = Some example_bundle"
    by (simp add: example_world_def)
  have h2: "determineDebugIdFromBundleSource example_bundle = Some example_id"
    by code_simp
  have h3: "?X = (fst ?X, snd ?X)" by simp
  have js: "path_join node_posix ''/tmp/up'' (uniqueUploadName example_id 1 @ ''.js'')
              = ''/tmp/up/0123abCD-0123-4567-89ab-0123456789AB-1.js''"
    by code_simp
  have mp: "path_join node_posix ''/tmp/up'' (uniqueUploadName example_id 1 @ ''.js.map'')
              = ''/tmp/up/0123abCD-0123-4567-89ab-0123456789AB-1.js.map''"
    by code_simp
  have lk: "''/tmp/up/0123abCD-0123-4567-89ab-0123456789AB-1.js'' \<notin> locked example_world"
    by (simp add: example_world_def)
  have ne: "''/tmp/up/0123abCD-0123-4567-89ab-0123456789AB-1.js''
              \<noteq> ''/tmp/up/0123abCD-0123-4567-89ab-0123456789AB-1.js.map''"
    by simp
  note t = staged_pair_shares_basename [OF h1 h2 h3, unfolded js mp]
  from t lk ne have a: "files (snd ?X) ''/tmp/up/0123abCD-0123-4567-89ab-0123456789AB-1.js''
     = Some (stamp example_bundle example_id)"
    by blast
  from t have "\<forall>p. files (snd ?X) p \<noteq> files example_world p \<longrightarrow>
        p = ''/tmp/up/0123abCD-0123-4567-89ab-0123456789AB-1.js'' \<or>
        p = ''/tmp/up/0123abCD-0123-4567-89ab-0123456789AB-1.js.map''"
    by blast
  then have b: "files (snd ?X) ''/dist/app.js.map'' = files example_world ''/dist/app.js.map''"
    by fastforce
  from t have "\<forall>j. uniqueUploadName example_id j = uniqueUploadName example_id 1 \<longrightarrow> j = 1"
    by blast
  then have c: "uniqueUploadName example_id 0 @ ''.js'' \<noteq> uniqueUploadName example_id 1 @ ''.js''"
    by auto
  from h1 h2 js mp lk a b c show ?thesis by (intro conjI)
qed

section \<open>Discovery: the empty include list and the empty candidate set\<close>

text \<open>
  Claim C9. With \<^verbatim>\<open>assets\<close> set to the empty list, discovery, preparation and upload come
  down to one debug line: no file is read or written and the uploader is not called. With
  a non-empty \<^verbatim>\<open>assets\<close> that matches no script file they come down to one warning.
  Neither rejects. Without a deletion pattern that is the whole run, up to the removal of
  the staging directory.
\<close>

theorem empty_include_is_quiet:
  "(assets opts = Some (Many []) \<and> glob P (Many []) (ignore opts) w = Inr found \<longrightarrow>
      discover_prepare_upload opts P folder buildArtifactPaths w
        = (None, log (LogDebug msg_empty_assets) w)) \<and>
   (truthy (assets opts) = Some a \<and> a \<noteq> Many [] \<and> glob P a (ignore opts) w = Inr found \<and>
    filter is_script found = [] \<longrightarrow>
      discover_prepare_upload opts P folder buildArtifactPaths w
        = (None, log (LogWarn msg_no_matches) w)) \<and>
   (mkdtemp P (path_join P (os_tmpdir P) ''sentry-bundler-plugin-upload-'') w0 = Inr (folder, w) \<and>
    truthy (deleteFilesAfterUpload opts) = None \<and>
    assets opts = Some (Many []) \<and> glob P (Many []) (ignore opts) w = Inr found \<longrightarrow>
      createDebugIdUploadFunction opts P buildArtifactPaths w0
        = (None, finally_block (Some folder) (log (LogDebug msg_empty_assets) w)))"
proof (intro conjI impI)
  assume h: "assets opts = Some (Many []) \<and> glob P (Many []) (ignore opts) w = Inr found"
  then show "discover_prepare_upload opts P folder buildArtifactPaths w
        = (None, log (LogDebug msg_empty_assets) w)"
    by (simp add: discover_prepare_upload_def truthy_def)
next
  assume h: "truthy (assets opts) = Some a \<and> a \<noteq> Many [] \<and> glob P a (ignore opts) w = Inr found \<and>
    filter is_script found = []"
  then have "assets opts \<noteq> Some (Many [])"
    by (auto simp: truthy_def)
  with h show "discover_prepare_upload opts P folder buildArtifactPaths w
        = (None, log (LogWarn msg_no_matches) w)"
    by (simp add: discover_prepare_upload_def)
next
  assume h: "mkdtemp P (path_join P (os_tmpdir P) ''sentry-bundler-plugin-upload-'') w0 = Inr (folder, w) \<and>
    truthy (deleteFilesAfterUpload opts) = None \<and>
    assets opts = Some (Many []) \<and> glob P (Many []) (ignore opts) w = Inr found"
  then have "discover_prepare_upload opts P folder buildArtifactPaths w
        = (None, log (LogDebug msg_empty_assets) w)"
    by (simp add: discover_prepare_upload_def truthy_def)
  with h show "createDebugIdUploadFunction opts P buildArtifactPaths w0
        = (None, finally_block (Some folder) (log (LogDebug msg_empty_assets) w))"
    by (simp add: createDebugIdUploadFunction_def try_block_def delete_files_after_upload_def)
qed


lemma example_mkdtemp:
  "mkdtemp node_posix (path_join node_posix (os_tmpdir node_posix) ''sentry-bundler-plugin-upload-'') w
     = Inr (example_folder, w\<lparr>dirs := insert example_folder (dirs w)\<rparr>)"
proof -
  have "path_join node_posix (os_tmpdir node_posix) ''sentry-bundler-plugin-upload-'' @ ''Ab3xYz''
          = example_folder"
    by code_simp
  moreover have "mkdtemp_suffix node_posix = Some ''Ab3xYz''"
    by (simp add: node_posix_def)
  ultimately show ?thesis
    by (simp add: mkdtemp_def)
qed

theorem empty_include_is_quiet_witness:
  "assets (example_options\<lparr>assets := Some (Many [])\<rparr>) = Some (Many []) \<and>
   glob node_posix (Many []) (ignore (example_options\<lparr>assets := Some (Many [])\<rparr>)) example_world = Inr [] \<and>
   discover_prepare_upload (example_options\<lparr>assets := Some (Many [])\<rparr>) node_posix example_folder
       [''/dist/app.js''] example_world
     = (None, log (LogDebug msg_empty_assets) example_world) \<and>
   truthy (assets (example_options\<lparr>assets := Some (Single ''/dist/other.js'')\<rparr>))
     = Some (Single ''/dist/other.js'') \<and>
   Single ''/dist/other.js'' \<noteq> Many [] \<and>
   glob node_posix (Single ''/dist/other.js'')
       (ignore (example_options\<lparr>assets := Some (Single ''/dist/other.js'')\<rparr>)) example_world = Inr [] \<and>
   filter is_script [] = [] \<and>
   discover_prepare_upload (example_options\<lparr>assets := Some (Single ''/dist/other.js'')\<rparr>) node_posix
       example_folder [''/dist/app.js''] example_world
     = (None, log (LogWarn msg_no_matches) example_world) \<and>
   mkdtemp node_posix (path_join node_posix (os_tmpdir node_posix) ''sentry-bundler-plugin-upload-'')
       example_world
     = Inr (example_folder, example_world\<lparr>dirs := insert example_folder (dirs example_world)\<rparr>) \<and>
   truthy (deleteFilesAfterUpload (example_options\<lparr>assets := Some (Many [])\<rparr>)) = None \<and>
   createDebugIdUploadFunction (example_options\<lparr>assets := Some (Many [])\<rparr>) node_posix
       [''/dist/app.js''] example_world
     = (None, finally_block (Some example_folder)
          (log (LogDebug msg_empty_assets)
             (example_world\<lparr>dirs := insert example_folder (dirs example_world)\<rparr>)))"
proof -
  let ?o1 = "example_options\<lparr>assets := Some (Many [])\<rparr>"
  let ?o2 = "example_options\<lparr>assets := Some (Single ''/dist/other.js'')\<rparr>"
  let ?w1 = "example_world\<lparr>dirs := insert example_folder (dirs example_world)\<rparr>"
  have a1: "assets ?o1 = Some (Many [])" by simp
  have g1: "glob node_posix (Many []) (ignore ?o1) w = Inr []" for w
    by (simp add: node_posix_def literal_glob_def example_options_def)
  have t2: "truthy (assets ?o2) = Some (Single ''/dist/other.js'')"
    by (simp add: truthy_def)
  have n2: "Single ''/dist/other.js'' \<noteq> Many []" by simp
  have g2: "glob node_posix (Single ''/dist/other.js'') (ignore ?o2) example_world = Inr []"
    by (simp add: node_posix_def literal_glob_def example_options_def example_world_def)
  have f2: "filter is_script [] = []" by simp
  have m: "mkdtemp node_posix (path_join node_posix (os_tmpdir node_posix) ''sentry-bundler-plugin-upload-'')
       example_world = Inr (example_folder, ?w1)"
    by (rule example_mkdtemp)
  have d: "truthy (deleteFilesAfterUpload ?o1) = None"
    by (simp add: truthy_def example_options_def)
  from empty_include_is_quiet [of ?o1 node_posix example_world "[]" example_folder "[''/dist/app.js'']"]
    a1 g1
  have r1: "discover_prepare_upload ?o1 node_posix example_folder [''/dist/app.js''] example_world
     = (None, log (LogDebug msg_empty_assets) example_world)"
    by blast
  from empty_include_is_quiet [of ?o2 node_posix example_world "[]" example_folder "[''/dist/app.js'']"
      "Single ''/dist/other.js''"] t2 n2 g2 f2
  have r2: "discover_prepare_upload ?o2 node_posix example_folder [''/dist/app.js''] example_world
     = (None, log (LogWarn msg_no_matches) example_world)"
    by blast
  from empty_include_is_quiet [of ?o1 node_posix ?w1 "[]" example_folder "[''/dist/app.js'']" _
      example_world] a1 g1 m d
  have r3: "createDebugIdUploadFunction ?o1 node_posix [''/dist/app.js''] example_world
     = (None, finally_block (Some example_folder) (log (LogDebug msg_empty_assets) ?w1))"
    by blast
  from a1 g1 r1 t2 n2 g2 f2 r2 m d r3 show ?thesis by (intro conjI)
qed

section \<open>Deletion after upload\<close>

lemma rm_force_keeps_removed:
  "rm_force p w = Inr w' \<Longrightarrow> files w q = None \<Longrightarrow> files w' q = None"
  by (auto simp: rm_force_def split: if_splits)

lemma rm_force_removes: "rm_force p w = Inr w' \<Longrightarrow> files w' p = None"
  by (auto simp: rm_force_def split: if_splits)

lemma rm_force_events: "rm_force p w = Inr w' \<Longrightarrow> events w' = events w"
  by (auto simp: rm_force_def split: if_splits)

lemma rm_all_keeps_removed:
  "rm_all ps w = (None, w') \<Longrightarrow> files w q = None \<Longrightarrow> files w' q = None"
proof (induction ps arbitrary: w)
  case Nil
  then show ?case by simp
next
  case (Cons p ps)
  from Cons.prems(1) obtain w1 where 1: "rm_force p w = Inr w1" and 2: "rm_all ps w1 = (None, w')"
    by (auto split: sum.splits prod.splits)
  from 1 Cons.prems(2) have "files w1 q = None" by (rule rm_force_keeps_removed)
  with 2 show ?case by (rule Cons.IH)
qed

lemma rm_all_removes:
  "rm_all ps w = (None, w') \<Longrightarrow> p \<in> set ps \<Longrightarrow> files w' p = None"
proof (induction ps arbitrary: w)
  case Nil
  then show ?case by simp
next
  case (Cons q ps)
  from Cons.prems(1) obtain w1 where 1: "rm_force q w = Inr w1" and 2: "rm_all ps w1 = (None, w')"
    by (auto split: sum.splits prod.splits)
  show ?case
  proof (cases "p = q")
    case True
    with 1 have "files w1 p = None" by (simp add: rm_force_removes)
    with 2 show ?thesis by (rule rm_all_keeps_removed)
  next
    case False
    with Cons.prems(2) have "p \<in> set ps" by simp
    with 2 show ?thesis by (rule Cons.IH)
  qed
qed

lemma rm_all_events: "rm_all ps w = (None, w') \<Longrightarrow> events w' = events w"
proof (induction ps arbitrary: w)
  case Nil
  then show ?case by simp
next
  case (Cons q ps)
  from Cons.prems(1) obtain w1 where 1: "rm_force q w = Inr w1" and 2: "rm_all ps w1 = (None, w')"
    by (auto split: sum.splits prod.splits)
  from 2 have "events w' = events w1" by (rule Cons.IH)
  with 1 show ?case by (simp add: rm_force_events)
qed

lemma events_announce:
  "events (foldl (\<lambda>w' p. log (LogDebug (msg_deleting p)) w') w ps)
     = events w @ map (\<lambda>p. LogDebug (msg_deleting p)) ps"
  by (induction ps arbitrary: w) (simp_all add: log_def)

text \<open>
  Claim C10. In a run of the \<^verbatim>\<open>try\<close> block that does not throw, with a deletion pattern
  configured, every path the deletion glob returns is gone afterwards, whatever the branch
  taken before. With \<^verbatim>\<open>assets\<close> set to the empty list the events of the run are the
  opt-out line and one line for each deleted path: the uploader is not called and the files
  are deleted all the same.
\<close>

theorem deletion_does_not_depend_on_upload:
  assumes "truthy (deleteFilesAfterUpload opts) = Some pats"
    and "try_block opts P folder buildArtifactPaths w = (None, w')"
  shows "\<exists>w1 ps. discover_prepare_upload opts P folder buildArtifactPaths w = (None, w1) \<and>
                glob P pats None w1 = Inr ps \<and>
                (\<forall>p\<in>set ps. files w' p = None) \<and>
                events w' = events w1 @ map (\<lambda>p. LogDebug (msg_deleting p)) ps \<and>
                (assets opts = Some (Many []) \<longrightarrow>
                   events w' = events w @ [LogDebug msg_empty_assets]
                                 @ map (\<lambda>p. LogDebug (msg_deleting p)) ps)"
proof -
  from assms(2) obtain w1 where d: "discover_prepare_upload opts P folder buildArtifactPaths w = (None, w1)"
    and del: "delete_files_after_upload opts P w1 = (None, w')"
    by (auto simp: try_block_def split: prod.splits option.splits)
  from del assms(1) obtain ps where g: "glob P pats None w1 = Inr ps"
    and rm: "rm_all ps (foldl (\<lambda>w' p. log (LogDebug (msg_deleting p)) w') w1 ps) = (None, w')"
    by (auto simp: delete_files_after_upload_def split: sum.splits)
  from rm have gone: "\<forall>p\<in>set ps. files w' p = None"
    by (blast intro: rm_all_removes)
  from rm have ev: "events w' = events w1 @ map (\<lambda>p. LogDebug (msg_deleting p)) ps"
    by (simp add: rm_all_events events_announce)
  have "events w' = events w @ [LogDebug msg_empty_assets] @ map (\<lambda>p. LogDebug (msg_deleting p)) ps"
    if a: "assets opts = Some (Many [])"
  proof -
    from d a have "w1 = log (LogDebug msg_empty_assets) w"
      by (auto simp: discover_prepare_upload_def truthy_def split: sum.splits)
    with ev show ?thesis by (simp add: log_def)
  qed
  with d g gone ev show ?thesis by blast
qed


theorem deletion_does_not_depend_on_upload_witness:
  "truthy (deleteFilesAfterUpload
      (example_options\<lparr>assets := Some (Many []), deleteFilesAfterUpload := Some (Single ''/dist/app.js.map'')\<rparr>))
     = Some (Single ''/dist/app.js.map'') \<and>
   fst (try_block
      (example_options\<lparr>assets := Some (Many []), deleteFilesAfterUpload := Some (Single ''/dist/app.js.map'')\<rparr>)
      node_posix example_folder [] example_world) = None \<and>
   files example_world ''/dist/app.js.map'' = Some example_map_text \<and>
   files (snd (try_block
      (example_options\<lparr>assets := Some (Many []), deleteFilesAfterUpload := Some (Single ''/dist/app.js.map'')\<rparr>)
      node_posix example_folder [] example_world)) ''/dist/app.js.map'' = None \<and>
   events (snd (try_block
      (example_options\<lparr>assets := Some (Many []), deleteFilesAfterUpload := Some (Single ''/dist/app.js.map'')\<rparr>)
      node_posix example_folder [] example_world))
     = [LogDebug msg_empty_assets, LogDebug (msg_deleting ''/dist/app.js.map'')]"
proof -
  let ?o = "example_options\<lparr>assets := Some (Many []),
              deleteFilesAfterUpload := Some (Single ''/dist/app.js.map'')\<rparr>"
  let ?T = "try_block ?o node_posix example_folder [] example_world"
  let ?w1 = "log (LogDebug msg_empty_assets) example_world"
  have h1: "truthy (deleteFilesAfterUpload ?o) = Some (Single ''/dist/app.js.map'')"
    by (simp add: truthy_def)
  have gl: "glob node_posix = literal_glob" by (simp add: node_posix_def)
  have d: "discover_prepare_upload ?o node_posix example_folder [] example_world = (None, ?w1)"
    by (simp add: discover_prepare_upload_def truthy_def gl literal_glob_def example_options_def)
  have f0: "files example_world ''/dist/app.js.map'' = Some example_map_text"
    by (simp add: example_world_def)
  have g: "glob node_posix (Single ''/dist/app.js.map'') None ?w1 = Inr [''/dist/app.js.map'']"
    by (simp add: gl literal_glob_def f0)
  have lk: "locked example_world = {}" by (simp add: example_world_def)
  have ev0: "events example_world = []" by (simp add: example_world_def)
  have h2: "fst ?T = None"
    by (simp add: try_block_def d delete_files_after_upload_def truthy_def g rm_force_def lk f0)
  then have h2': "?T = (None, snd ?T)" by (simp add: prod_eq_iff)
  from deletion_does_not_depend_on_upload [OF h1 h2'] d g
  have "(\<forall>p\<in>set [''/dist/app.js.map'']. files (snd ?T) p = None) \<and>
        events (snd ?T) = events example_world @ [LogDebug msg_empty_assets]
           @ map (\<lambda>p. LogDebug (msg_deleting p)) [''/dist/app.js.map'']"
    by auto
  then have c: "files (snd ?T) ''/dist/app.js.map'' = None"
    "events (snd ?T) = [LogDebug msg_empty_assets, LogDebug (msg_deleting ''/dist/app.js.map'')]"
    by (simp_all add: ev0)
  from h1 h2 f0 c show ?thesis by (intro conjI)
qed

section \<open>Failure isolation inside a unit\<close>

lemma bundle_write_failure_rejects_unit:
  assumes "files w bundleFilePath = Some content"
    and "determineDebugIdFromBundleSource content = Some debugId"
    and "path_join P uploadFolder (uniqueUploadName debugId chunkIndex @ ''.js'') \<in> locked w"
  shows "fst (prepareBundleForDebugIdUpload P bundleFilePath uploadFolder chunkIndex hook w)
           = Some (FsError (path_join P uploadFolder (uniqueUploadName debugId chunkIndex @ ''.js'')))"
  using assms
  by (simp add: prepareBundleForDebugIdUpload_def readFile_def writeFile_def Let_def)

lemma map_pipeline_failures_are_logged:
  assumes "\<forall>src d. \<exists>s. hook src d = Inr s"
  shows "fst (prepareSourceMapForDebugIdUpload P sourceMapPath targetPath debugId hook w) = None"
proof -
  have "rewrite_sources hook doc = Inr doc" for doc
    using assms by (intro rewrite_sources_total) simp
  then show ?thesis
    by (simp add: prepareSourceMapForDebugIdUpload_def split: sum.splits option.splits)
qed

text \<open>
  Claim C3, at a failing input. The staged bundle path cannot be written. The unit logs
  nothing and rejects, the batch sees the rejection, does not call the uploader and hands
  the error to the telemetry and to the callback. When the staged map path is the one that
  cannot be written, the unit logs an error and the batch uploads: that failure is isolated.
\<close>

theorem bundle_write_failure_reaches_the_batch:
  "fst (prepareBundleForDebugIdUpload node_posix ''/dist/app.js'' example_folder 0
          (default_hook node_posix) (example_world\<lparr>locked := {example_staged_js}\<rparr>))
     = Some (FsError example_staged_js) \<and>
   events (snd (prepareBundleForDebugIdUpload node_posix ''/dist/app.js'' example_folder 0
          (default_hook node_posix) (example_world\<lparr>locked := {example_staged_js}\<rparr>))) = [] \<and>
   events (snd (createDebugIdUploadFunction example_options node_posix []
          (example_world\<lparr>locked := {example_staged_js}\<rparr>)))
     = [CaptureException msg_capture, Flush, HandleRecoverableError (FsError example_staged_js)] \<and>
   events (snd (createDebugIdUploadFunction example_options node_posix []
          (example_world\<lparr>locked := {example_staged_map}\<rparr>)))
     = [LogError (msg_map_unwritable ''/dist/app.js.map''),
        UploadSourceMaps ''undefined'' [example_folder] None]"
  by code_simp

section \<open>The staging directory\<close>























lemma map_pipeline_then_removal:
  assumes "case l of
          [MapPipeline b i, DirRemoval d disk] \<Rightarrow> Q b i d disk
        | _ \<Rightarrow> False"
  shows "\<exists>b i d disk. l = [MapPipeline b i, DirRemoval d disk] \<and> Q b i d disk"
proof (cases l)
  case Nil
  with assms show ?thesis by simp
next
  case (Cons p l1)
  note l = this
  show ?thesis
  proof (cases l1)
    case Nil
    with l assms show ?thesis by (cases p) simp_all
  next
    case (Cons q l2)
    note l1 = this
    show ?thesis
    proof (cases l2)
      case Nil
      with l l1 assms show ?thesis by (cases p; cases q) simp_all
    next
      case (Cons q' l3)
      with l l1 assms show ?thesis by (cases p; cases q) simp_all
    qed
  qed
qed

text \<open>
  On a run that rejects the order is not kept. At the failing input of claim C3 the write
  of the staged bundle is rejected, \<^verbatim>\<open>Promise.all\<close> stops waiting for the map pipeline of
  that unit, and the removal of the staging directory is started while the pipeline, which
  is about to write the staged map, is still in flight.
\<close>

lemma removal_is_started_with_the_map_pipeline_in_flight:
  "\<exists>disk. in_flight (snd (createDebugIdUploadFunction example_options node_posix []
              (example_world\<lparr>locked := {example_staged_js}\<rparr>)))
            = [MapPipeline ''/dist/app.js'' 0, DirRemoval example_folder disk] \<and>
          disk example_staged_map = None"
proof -
  let ?X = "createDebugIdUploadFunction example_options node_posix []
              (example_world\<lparr>locked := {example_staged_js}\<rparr>)"
  have "case in_flight (snd ?X) of
          [MapPipeline b i, DirRemoval d disk] \<Rightarrow>
            b = ''/dist/app.js'' \<and> i = 0 \<and> d = example_folder \<and> disk example_staged_map = None
        | _ \<Rightarrow> False"
    by code_simp
  from map_pipeline_then_removal [OF this] show ?thesis by blast
qed

end
